theory Spec2Isabelle
  imports Main
begin

section \<open>Entities\<close>

text \<open>
  The entities of \<^verbatim>\<open>packages/servers/serverless/entities\<close>. \<^verbatim>\<open>ISubscription\<close> follows
  \<^verbatim>\<open>ISubscription.ts\<close> field by field. A subscription arrives as decoded JSON (from the
  marketplace, or from the request body of the unsubscribe trigger), so a field may be
  missing at run time whatever the interface declares; the two fields whose presence the
  specification discusses, \<^verbatim>\<open>id\<close> and \<^verbatim>\<open>tenantId\<close>, are therefore options
  (\<open>None\<close> is JavaScript's \<^verbatim>\<open>undefined\<close>). The \<^verbatim>\<open>purchaser\<close> and
  \<^verbatim>\<open>beneficiary\<close> objects themselves are taken to be present, as the interface declares:
  a payload without one of them, on which the service throws a \<open>TypeError\<close> when it first
  reads a field of the missing object, is outside the model. Dates are kept as their ISO
  strings.
  Field names that several entities share, or that HOL already uses, carry the entity's
  name: \<open>sub_id\<close> is \<^verbatim>\<open>ISubscription.id\<close>, \<open>user_id\<close> and \<open>org_id\<close> are the
  \<^verbatim>\<open>_id\<close> of a user and of an organization, \<open>user_tenantId\<close> and \<open>org_tenantId\<close>
  their \<^verbatim>\<open>tenantId\<close>.
\<close>

text \<open>
  Modelled from the spec: the enum \<^verbatim>\<open>Role\<close> is declared in \<^verbatim>\<open>entities\<close>, outside the
  sources at hand; the specification (3) gives a user's role as one of \<^verbatim>\<open>{Admin, Member}\<close>.
\<close>

datatype Role = Admin | Member

record Principal =
  emailId :: string
  objectId :: string
  tenantId :: "string option"
  pid :: string

record SubscriptionTerm =
  termUnit :: string
  startDate :: string
  endDate :: string

record ISubscription =
  sub_id :: "string option"
  publisherId :: string
  offerId :: string
  sub_name :: string
  saasSubscriptionStatus :: string
  beneficiary :: Principal
  purchaser :: Principal
  planId :: string
  sub_term :: SubscriptionTerm
  autoRenew :: bool
  isTest :: bool
  isFreeTrial :: bool
  allowedCustomerOperations :: "string list"
  sandboxType :: string
  lastModified :: string
  quantity :: int
  sessionMode :: string

text \<open>
  Modelled from the spec: the enum \<^verbatim>\<open>SaasSubscriptionStatus\<close> is declared in
  \<^verbatim>\<open>entities\<close>, outside the sources at hand; the specification names its members
  \<^verbatim>\<open>Subscribed\<close> and \<^verbatim>\<open>Unsubscribed\<close>, and \<^verbatim>\<open>ISubscription.ts\<close> types the status
  as a string.
\<close>

definition Subscribed :: string where
  "Subscribed = ''Subscribed''"

definition Unsubscribed :: string where
  "Unsubscribed = ''Unsubscribed''"

text \<open>
  Modelled from the spec: the interfaces \<^verbatim>\<open>IUser\<close> and \<^verbatim>\<open>IOrganization\<close> are declared
  in \<^verbatim>\<open>entities\<close>, outside the sources at hand. Their fields are those of the
  specification's data model (3), which are the ones the service reads and writes, and the
  \<^verbatim>\<open>_id\<close> of a stored document. The service uses both as documents and as partial
  objects (a filter, a patch: \<^verbatim>\<open>defaultUserSubscription: IUser\<close> has three fields only),
  so every field is optional.
\<close>

record IUser =
  user_id :: "nat option"
  userId :: "string option"
  user_tenantId :: "string option"
  upn :: "string option"
  role :: "Role option"
  license :: "string option"
  subscriptionId :: "string option"

record IOrganization =
  org_id :: "nat option"
  org_tenantId :: "string option"
  subscriptions :: "ISubscription list option"

definition emptyUser :: IUser where
  "emptyUser = \<lparr>user_id = None, userId = None, user_tenantId = None, upn = None,
     role = None, license = None, subscriptionId = None\<rparr>"

definition emptyOrganization :: IOrganization where
  "emptyOrganization = \<lparr>org_id = None, org_tenantId = None, subscriptions = None\<rparr>"

text \<open>
  Modelled from the spec: the types of the marketplace exchanges are declared in
  \<^verbatim>\<open>entities\<close>, outside the sources at hand. Of the authentication answer the service
  reads \<^verbatim>\<open>access_token\<close>, of the resolve answer \<^verbatim>\<open>subscription\<close>, of the activation
  answer \<^verbatim>\<open>Message\<close>; the activation payload is \<^verbatim>\<open>{planId, quantity}\<close>. A part that
  the service tests before use, or reads through \<^verbatim>\<open>?.\<close>, is optional.
\<close>

record IAuthenticateResponse =
  access_token :: "string option"

record AddSubscription =
  subscription :: "ISubscription option"

record ActivateSubscription =
  act_planId :: string
  act_quantity :: int

record ActivateResponse =
  Message :: "string option"

text \<open>JavaScript truthiness of a string that may be undefined: defined and not empty.\<close>

definition truthy :: "string option \<Rightarrow> bool" where
  "truthy s = (case s of None \<Rightarrow> False | Some v \<Rightarrow> v \<noteq> [])"

section \<open>Errors, effects and the outside world\<close>

text \<open>
  Every \<^verbatim>\<open>throw\<close> is a value: \<open>TypeError\<close> is the property access on
  \<^verbatim>\<open>undefined\<close>/\<^verbatim>\<open>null\<close>, \<open>ApiError\<close> the \<^verbatim>\<open>new Error(...)\<close> of
  \<^verbatim>\<open>callActivateSubscriptionApi\<close> (carrying the API's message), \<open>TransportError\<close> a
  rejected HTTP or authentication call and \<open>StoreError\<close> a rejected repository call.
  The \<^verbatim>\<open>catch\<close> blocks of the service log and rethrow, so they do not show in the
  model; neither do the calls to the logger.
\<close>

datatype error = TypeError | ApiError string | TransportError | StoreError

text \<open>One event per call that leaves the service, in the order the calls are made.\<close>

datatype event =
    GetAppAuthenticationToken
  | PostResolve string string
  | PostActivate "string option" string ActivateSubscription
  | OrganizationFindOne IOrganization
  | OrganizationFindOneAndUpdate IOrganization IOrganization
  | UserFind IUser
  | UserFindOneAndUpdate IUser IUser

text \<open>
  The state the service acts on: the two collections and the calls made so far. A
  document's \<^verbatim>\<open>_id\<close> is its position in the collection; the service never deletes a
  document, so the position never changes.
\<close>

record world =
  organizations :: "IOrganization list"
  users :: "IUser list"
  trace :: "event list"

text \<open>
  What the collaborators answer during one run: the authentication provider, the two
  marketplace endpoints, and for the stores whether the call made as the \<open>n\<close>-th call of
  the trace is rejected.
\<close>

record env =
  authenticationResponse :: "error + IAuthenticateResponse"
  resolveResponse :: "error + AddSubscription option"
  activateResponse :: "error + ActivateResponse option"
  storeFails :: "nat \<Rightarrow> bool"

definition record_event :: "event \<Rightarrow> world \<Rightarrow> world" where
  "record_event ev w = w\<lparr>trace := trace w @ [ev]\<rparr>"

section \<open>Repositories\<close>

text \<open>
  Modelled from the spec: \<^verbatim>\<open>BaseRepository\<close> and its factories are in
  \<^verbatim>\<open>repositories\<close>, outside the sources at hand. The specification (4.4) gives the stores
  \<^verbatim>\<open>findOne(filter) -> Entity|absent\<close>, \<^verbatim>\<open>find(filter) -> list<Entity>\<close> and
  \<^verbatim>\<open>findOneAndUpdate(filter, patch) -> Entity\<close> "with upsert semantics (create if no
  match, else apply patch and return the new state)". A filter is a partial object: a
  document matches when it agrees on every field the filter defines. A patch overwrites
  the fields it defines and keeps the others; the \<^verbatim>\<open>_id\<close> of a document is never
  rewritten. The first matching document is the one found; a created document is the
  filter with the patch applied, added at the end of the collection. An entity handed to
  the service is the document with its \<^verbatim>\<open>_id\<close> filled in.
\<close>

fun findFrom :: "nat \<Rightarrow> (nat \<Rightarrow> 'd \<Rightarrow> bool) \<Rightarrow> 'd list \<Rightarrow> nat option" where
  "findFrom k m [] = None"
| "findFrom k m (d # ds) = (if m k d then Some k else findFrom (Suc k) m ds)"

definition findAll :: "(nat \<Rightarrow> 'd \<Rightarrow> bool) \<Rightarrow> 'd list \<Rightarrow> nat list" where
  "findAll m ds = filter (\<lambda>i. m i (ds ! i)) [0..<length ds]"

definition upsert :: "(nat \<Rightarrow> 'd \<Rightarrow> bool) \<Rightarrow> ('d \<Rightarrow> 'd) \<Rightarrow> 'd \<Rightarrow> 'd list \<Rightarrow> nat \<times> 'd list" where
  "upsert m upd created ds =
     (case findFrom 0 m ds of
        Some i \<Rightarrow> (i, ds[i := upd (ds ! i)])
      | None \<Rightarrow> (length ds, ds @ [created]))"

definition field_matches :: "'a option \<Rightarrow> 'a option \<Rightarrow> bool" where
  "field_matches q v = (case q of None \<Rightarrow> True | Some x \<Rightarrow> v = Some x)"

definition patch_field :: "'a option \<Rightarrow> 'a option \<Rightarrow> 'a option" where
  "patch_field p v = (case p of None \<Rightarrow> v | Some x \<Rightarrow> Some x)"

definition user_matches :: "IUser \<Rightarrow> nat \<Rightarrow> IUser \<Rightarrow> bool" where
  "user_matches f i d =
     (field_matches (user_id f) (Some i) \<and> field_matches (userId f) (userId d)
      \<and> field_matches (user_tenantId f) (user_tenantId d) \<and> field_matches (upn f) (upn d)
      \<and> field_matches (role f) (role d) \<and> field_matches (license f) (license d)
      \<and> field_matches (subscriptionId f) (subscriptionId d))"

definition user_patch :: "IUser \<Rightarrow> IUser \<Rightarrow> IUser" where
  "user_patch p d =
     \<lparr>user_id = user_id d,
      userId = patch_field (userId p) (userId d),
      user_tenantId = patch_field (user_tenantId p) (user_tenantId d),
      upn = patch_field (upn p) (upn d),
      role = patch_field (role p) (role d),
      license = patch_field (license p) (license d),
      subscriptionId = patch_field (subscriptionId p) (subscriptionId d)\<rparr>"

definition user_entity :: "IUser list \<Rightarrow> nat \<Rightarrow> IUser" where
  "user_entity ds i = (ds ! i)\<lparr>user_id := Some i\<rparr>"

definition organization_matches :: "IOrganization \<Rightarrow> nat \<Rightarrow> IOrganization \<Rightarrow> bool" where
  "organization_matches f i d =
     (field_matches (org_id f) (Some i) \<and> field_matches (org_tenantId f) (org_tenantId d)
      \<and> field_matches (subscriptions f) (subscriptions d))"

definition organization_patch :: "IOrganization \<Rightarrow> IOrganization \<Rightarrow> IOrganization" where
  "organization_patch p d =
     \<lparr>org_id = org_id d,
      org_tenantId = patch_field (org_tenantId p) (org_tenantId d),
      subscriptions = patch_field (subscriptions p) (subscriptions d)\<rparr>"

definition organization_entity :: "IOrganization list \<Rightarrow> nat \<Rightarrow> IOrganization" where
  "organization_entity ds i = (ds ! i)\<lparr>org_id := Some i\<rparr>"

text \<open>
  Modelled from the spec: \<^verbatim>\<open>find(filter) -> list<Entity>\<close> of the user repository. Like
  every repository call it is recorded, and rejected when the environment says so.
\<close>

definition userRepository_find :: "env \<Rightarrow> IUser \<Rightarrow> world \<Rightarrow> (error + IUser list) \<times> world" where
  "userRepository_find e f w =
     (if storeFails e (length (trace w)) then (Inl StoreError, record_event (UserFind f) w)
      else (Inr (map (user_entity (users w)) (findAll (user_matches f) (users w))),
            record_event (UserFind f) w))"

text \<open>
  Modelled from the spec: \<^verbatim>\<open>findOneAndUpdate(filter, patch) -> Entity\<close> of the user
  repository, with upsert semantics; a rejected call writes nothing.
\<close>

definition userRepository_findOneAndUpdate ::
  "env \<Rightarrow> IUser \<Rightarrow> IUser \<Rightarrow> world \<Rightarrow> (error + IUser) \<times> world" where
  "userRepository_findOneAndUpdate e f p w =
     (if storeFails e (length (trace w))
      then (Inl StoreError, record_event (UserFindOneAndUpdate f p) w)
      else (case upsert (user_matches f) (user_patch p) (user_patch p (f\<lparr>user_id := None\<rparr>)) (users w) of
              (i, ds) \<Rightarrow> (Inr (user_entity ds i),
                          record_event (UserFindOneAndUpdate f p) (w\<lparr>users := ds\<rparr>))))"

text \<open>
  Modelled from the spec: \<^verbatim>\<open>findOne(filter) -> Entity|absent\<close> of the organization
  repository.
\<close>

definition organizationRepository_findOne ::
  "env \<Rightarrow> IOrganization \<Rightarrow> world \<Rightarrow> (error + IOrganization option) \<times> world" where
  "organizationRepository_findOne e f w =
     (if storeFails e (length (trace w))
      then (Inl StoreError, record_event (OrganizationFindOne f) w)
      else (Inr (map_option (organization_entity (organizations w))
                   (findFrom 0 (organization_matches f) (organizations w))),
            record_event (OrganizationFindOne f) w))"

text \<open>
  Modelled from the spec: \<^verbatim>\<open>findOneAndUpdate(filter, patch) -> Entity\<close> of the
  organization repository, with upsert semantics; a rejected call writes nothing.
\<close>

definition organizationRepository_findOneAndUpdate ::
  "env \<Rightarrow> IOrganization \<Rightarrow> IOrganization \<Rightarrow> world \<Rightarrow> (error + IOrganization) \<times> world" where
  "organizationRepository_findOneAndUpdate e f p w =
     (if storeFails e (length (trace w))
      then (Inl StoreError, record_event (OrganizationFindOneAndUpdate f p) w)
      else (case upsert (organization_matches f) (organization_patch p)
                   (organization_patch p (f\<lparr>org_id := None\<rparr>)) (organizations w) of
              (i, ds) \<Rightarrow> (Inr (organization_entity ds i),
                          record_event (OrganizationFindOneAndUpdate f p) (w\<lparr>organizations := ds\<rparr>))))"

section \<open>Marketplace client\<close>

text \<open>
  Modelled from the spec: \<^verbatim>\<open>AuthenticationProvider.getAppAuthenticationToken\<close> is in
  \<^verbatim>\<open>utils\<close>, outside the sources at hand; the specification (4.3) gives it as
  \<^verbatim>\<open>getAppAuthenticationToken() -> {access_token}\<close>. The call is recorded and answers
  what the environment says: a value, or a rejection.
\<close>

definition getAppAuthenticationToken :: "env \<Rightarrow> world \<Rightarrow> (error + IAuthenticateResponse) \<times> world" where
  "getAppAuthenticationToken e w =
     (authenticationResponse e, record_event GetAppAuthenticationToken w)"

text \<open>
  Modelled from the spec: \<^verbatim>\<open>HttpProvider.post\<close> is in \<^verbatim>\<open>utils\<close>, outside the sources at
  hand. It is called on two endpoints, the resolve endpoint (with the access token and the
  marketplace token in the headers) and the activation endpoint (with the subscription id
  in the path and the payload as body); each call is recorded and answers what the
  environment says.
\<close>

definition post_resolve ::
  "env \<Rightarrow> string \<Rightarrow> string \<Rightarrow> world \<Rightarrow> (error + AddSubscription option) \<times> world" where
  "post_resolve e token resolveToken w =
     (resolveResponse e, record_event (PostResolve token resolveToken) w)"

definition post_activate ::
  "env \<Rightarrow> string option \<Rightarrow> string \<Rightarrow> ActivateSubscription \<Rightarrow> world
     \<Rightarrow> (error + ActivateResponse option) \<times> world" where
  "post_activate e sid token body w =
     (activateResponse e, record_event (PostActivate sid token body) w)"

section \<open>SubscriptionService\<close>

text \<open>
  The methods of \<^verbatim>\<open>SubscriptionService.ts\<close>, under their names. A method takes the
  environment and the world and returns its value, or the error it throws, together with
  the world it leaves: what was written before a \<^verbatim>\<open>throw\<close> stays written. An object that
  a method mutates (\<^verbatim>\<open>subscriptionRes.saasSubscriptionStatus = ...\<close>,
  \<^verbatim>\<open>organization.subscriptions = ...\<close>) is returned or passed on in its new state. The two
  \<^verbatim>\<open>for\<close> statements are the \<open>_loop\<close> functions, \<open>userData\<close> is the object of that name
  built in \<^verbatim>\<open>findOwnerOrCreateUser\<close>, and a property read on \<^verbatim>\<open>undefined\<close> is a
  \<open>TypeError\<close>.
\<close>

definition getSubscriptionDetails ::
  "env \<Rightarrow> string \<Rightarrow> string \<Rightarrow> world \<Rightarrow> (error + AddSubscription option) \<times> world" where
  "getSubscriptionDetails e token resolveToken w = post_resolve e token resolveToken w"

definition callActivateSubscriptionApi ::
  "env \<Rightarrow> string option \<Rightarrow> string \<Rightarrow> ActivateSubscription \<Rightarrow> world \<Rightarrow> (error + unit) \<times> world" where
  "callActivateSubscriptionApi e sid token confirmationPayload w =
     (case post_activate e sid token confirmationPayload w of
        (Inl err, w1) \<Rightarrow> (Inl err, w1)
      | (Inr response, w1) \<Rightarrow>
          (case response of
             None \<Rightarrow> (Inr (), w1)
           | Some r \<Rightarrow>
               (case Message r of
                  None \<Rightarrow> (Inr (), w1)
                | Some msg \<Rightarrow> if msg \<noteq> [] then (Inl (ApiError msg), w1) else (Inr (), w1))))"

definition activateSubscription ::
  "env \<Rightarrow> ISubscription option \<Rightarrow> string \<Rightarrow> world \<Rightarrow> (error + ISubscription option) \<times> world" where
  "activateSubscription e subscriptionRes token w =
     (case subscriptionRes of
        None \<Rightarrow> (Inl TypeError, w)
      | Some s \<Rightarrow>
          if saasSubscriptionStatus s = Subscribed then (Inr (Some s), w)
          else (case callActivateSubscriptionApi e (sub_id s) token
                       \<lparr>act_planId = planId s, act_quantity = quantity s\<rparr> w of
                  (Inl err, w1) \<Rightarrow> (Inl err, w1)
                | (Inr u, w1) \<Rightarrow> (Inr (Some (s\<lparr>saasSubscriptionStatus := Subscribed\<rparr>)), w1)))"

definition getOrganizationSubscription ::
  "IOrganization option \<Rightarrow> ISubscription \<Rightarrow> error + ISubscription option" where
  "getOrganizationSubscription organization subscriptionRes =
     (case organization of
        None \<Rightarrow> Inl TypeError
      | Some org \<Rightarrow>
          (case subscriptions org of
             None \<Rightarrow> Inr None
           | Some subs \<Rightarrow> Inr (List.find (\<lambda>s. sub_id s = sub_id subscriptionRes) subs)))"

definition updateOrganizationSubscriptions ::
  "env \<Rightarrow> IOrganization \<Rightarrow> ISubscription \<Rightarrow> world \<Rightarrow> (error + IOrganization) \<times> world" where
  "updateOrganizationSubscriptions e organization subscriptionRes w =
     organizationRepository_findOneAndUpdate e
       (emptyOrganization\<lparr>org_id := org_id organization\<rparr>)
       (organization\<lparr>subscriptions :=
          Some (case subscriptions organization of
                  Some subs \<Rightarrow> subs @ [subscriptionRes]
                | None \<Rightarrow> [subscriptionRes])\<rparr>)
       w"

definition getOrCreateOrganization ::
  "env \<Rightarrow> ISubscription \<Rightarrow> world \<Rightarrow> (error + IOrganization) \<times> world" where
  "getOrCreateOrganization e subscriptionRes w =
     organizationRepository_findOneAndUpdate e
       (emptyOrganization\<lparr>org_tenantId := tenantId (purchaser subscriptionRes)\<rparr>)
       (emptyOrganization\<lparr>org_tenantId := tenantId (purchaser subscriptionRes)\<rparr>)
       w"

definition prepareFindOwnerQuery :: "bool \<Rightarrow> ISubscription \<Rightarrow> IUser list" where
  "prepareFindOwnerQuery isPurchaserIsBeneficiary s =
     (if isPurchaserIsBeneficiary
      then [emptyUser\<lparr>userId := Some (objectId (purchaser s)),
                      user_tenantId := tenantId (purchaser s),
                      upn := Some (emailId (purchaser s))\<rparr>]
      else [emptyUser\<lparr>userId := Some (objectId (purchaser s)),
                      user_tenantId := tenantId (purchaser s),
                      upn := Some (emailId (purchaser s))\<rparr>,
            emptyUser\<lparr>user_tenantId := tenantId (beneficiary s),
                      userId := Some (objectId (beneficiary s)),
                      upn := Some (emailId (beneficiary s))\<rparr>])"

definition userData :: "ISubscription \<Rightarrow> IUser \<Rightarrow> IUser" where
  "userData s userQuery =
     userQuery\<lparr>role := Some (if saasSubscriptionStatus s = Subscribed then Admin else Member),
               license := Some (if saasSubscriptionStatus s = Subscribed then planId s else []),
               subscriptionId := (if saasSubscriptionStatus s = Subscribed then sub_id s else Some [])\<rparr>"

fun findOwnerOrCreateUser_loop ::
  "env \<Rightarrow> IUser list \<Rightarrow> ISubscription \<Rightarrow> IUser list \<Rightarrow> world \<Rightarrow> (error + IUser list) \<times> world" where
  "findOwnerOrCreateUser_loop e [] s owners w = (Inr owners, w)"
| "findOwnerOrCreateUser_loop e (userQuery # rest) s owners w =
     (case userRepository_findOneAndUpdate e userQuery (userData s userQuery) w of
        (Inl err, w1) \<Rightarrow> (Inl err, w1)
      | (Inr owner, w1) \<Rightarrow> findOwnerOrCreateUser_loop e rest s (owners @ [owner]) w1)"

definition findOwnerOrCreateUser ::
  "env \<Rightarrow> IUser list \<Rightarrow> ISubscription \<Rightarrow> world \<Rightarrow> (error + IUser list) \<times> world" where
  "findOwnerOrCreateUser e usersQueries s w = findOwnerOrCreateUser_loop e usersQueries s [] w"

definition getOrCreateSubscriptionOwners ::
  "env \<Rightarrow> ISubscription \<Rightarrow> world \<Rightarrow> (error + IUser list) \<times> world" where
  "getOrCreateSubscriptionOwners e s w =
     findOwnerOrCreateUser e
       (prepareFindOwnerQuery (objectId (purchaser s) = objectId (beneficiary s)) s) s w"

definition resolveSubscription ::
  "env \<Rightarrow> string \<Rightarrow> world \<Rightarrow> (error + ISubscription option) \<times> world" where
  "resolveSubscription e token w =
     (case getAppAuthenticationToken e w of
        (Inl err, w1) \<Rightarrow> (Inl err, w1)
      | (Inr auth, w1) \<Rightarrow>
          (case access_token auth of
             None \<Rightarrow> (Inr None, w1)
           | Some tok \<Rightarrow>
               if tok = [] then (Inr None, w1)
               else
                 (case getSubscriptionDetails e tok token w1 of
                    (Inl err, w2) \<Rightarrow> (Inl err, w2)
                  | (Inr None, w2) \<Rightarrow> (Inl TypeError, w2)
                  | (Inr (Some subscriptionRes), w2) \<Rightarrow>
                      (case activateSubscription e (subscription subscriptionRes) tok w2 of
                         (Inl err, w3) \<Rightarrow> (Inl err, w3)
                       | (Inr None, w3) \<Rightarrow> (Inr None, w3)
                       | (Inr (Some s), w3) \<Rightarrow>
                           (case getOrCreateOrganization e s w3 of
                              (Inl err, w4) \<Rightarrow> (Inl err, w4)
                            | (Inr organization, w4) \<Rightarrow>
                                (case getOrganizationSubscription (Some organization) s of
                                   Inl err \<Rightarrow> (Inl err, w4)
                                 | Inr dbSubscription \<Rightarrow>
                                     (case (case dbSubscription of
                                              None \<Rightarrow> Inr organization
                                            | Some d \<Rightarrow>
                                                (case subscriptions organization of
                                                   None \<Rightarrow> Inl TypeError
                                                 | Some subs \<Rightarrow>
                                                     Inr (organization\<lparr>subscriptions :=
                                                       Some (filter (\<lambda>x. sub_id x \<noteq> sub_id d) subs)\<rparr>))) of
                                        Inl err \<Rightarrow> (Inl err, w4)
                                      | Inr organization' \<Rightarrow>
                                          (case updateOrganizationSubscriptions e organization' s w4 of
                                             (Inl err, w5) \<Rightarrow> (Inl err, w5)
                                           | (Inr updated, w5) \<Rightarrow>
                                               (case getOrCreateSubscriptionOwners e s w5 of
                                                  (Inl err, w6) \<Rightarrow> (Inl err, w6)
                                                | (Inr owners, w6) \<Rightarrow> (Inr (Some s), w6))))))))))"

definition defaultUserSubscription :: IUser where
  "defaultUserSubscription = emptyUser\<lparr>role := Some Member, subscriptionId := Some [], license := Some ''Free''\<rparr>"

fun removeAllSubscriptionUsers_loop :: "env \<Rightarrow> IUser list \<Rightarrow> world \<Rightarrow> (error + unit) \<times> world" where
  "removeAllSubscriptionUsers_loop e [] w = (Inr (), w)"
| "removeAllSubscriptionUsers_loop e (user # rest) w =
     (case userRepository_findOneAndUpdate e (emptyUser\<lparr>user_id := user_id user\<rparr>)
             defaultUserSubscription w of
        (Inl err, w1) \<Rightarrow> (Inl err, w1)
      | (Inr updated, w1) \<Rightarrow> removeAllSubscriptionUsers_loop e rest w1)"

definition removeAllSubscriptionUsers ::
  "env \<Rightarrow> string option \<Rightarrow> string option \<Rightarrow> world \<Rightarrow> (error + unit) \<times> world" where
  "removeAllSubscriptionUsers e tid sid w =
     (case userRepository_find e (emptyUser\<lparr>user_tenantId := tid, subscriptionId := sid\<rparr>) w of
        (Inl err, w1) \<Rightarrow> (Inl err, w1)
      | (Inr found, w1) \<Rightarrow> removeAllSubscriptionUsers_loop e found w1)"

definition updateSubscriptionStatus ::
  "env \<Rightarrow> string option \<Rightarrow> ISubscription \<Rightarrow> world \<Rightarrow> (error + unit) \<times> world" where
  "updateSubscriptionStatus e tid s w =
     (case organizationRepository_findOne e (emptyOrganization\<lparr>org_tenantId := tid\<rparr>) w of
        (Inl err, w1) \<Rightarrow> (Inl err, w1)
      | (Inr organization, w1) \<Rightarrow>
          (case getOrganizationSubscription organization s of
             Inl err \<Rightarrow> (Inl err, w1)
           | Inr None \<Rightarrow> (Inl TypeError, w1)
           | Inr (Some found) \<Rightarrow>
               (case organization of
                  None \<Rightarrow> (Inl TypeError, w1)
                | Some org \<Rightarrow>
                    (case subscriptions org of
                       None \<Rightarrow> (Inl TypeError, w1)
                     | Some subs \<Rightarrow>
                         (case updateOrganizationSubscriptions e
                                 (org\<lparr>subscriptions := Some (filter (\<lambda>x. sub_id x \<noteq> sub_id found) subs)\<rparr>)
                                 (found\<lparr>saasSubscriptionStatus := Unsubscribed\<rparr>) w1 of
                            (Inl err, w2) \<Rightarrow> (Inl err, w2)
                          | (Inr updated, w2) \<Rightarrow> (Inr (), w2))))))"

definition removeSubscription :: "env \<Rightarrow> ISubscription \<Rightarrow> world \<Rightarrow> (error + unit) \<times> world" where
  "removeSubscription e s w =
     (case removeAllSubscriptionUsers e (tenantId (purchaser s)) (sub_id s) w of
        (Inl err, w1) \<Rightarrow> (Inl err, w1)
      | (Inr u, w1) \<Rightarrow> updateSubscriptionStatus e (tenantId (purchaser s)) s w1)"


section \<open>Observations on the trace\<close>

fun isPostActivate :: "event \<Rightarrow> bool" where
  "isPostActivate (PostActivate sid token payload) = True"
| "isPostActivate ev = False"

fun isUserUpsert :: "event \<Rightarrow> bool" where
  "isUserUpsert (UserFindOneAndUpdate f p) = True"
| "isUserUpsert ev = False"

fun isUserCall :: "event \<Rightarrow> bool" where
  "isUserCall (UserFind f) = True"
| "isUserCall (UserFindOneAndUpdate f p) = True"
| "isUserCall ev = False"

fun isOrganizationCall :: "event \<Rightarrow> bool" where
  "isOrganizationCall (OrganizationFindOne f) = True"
| "isOrganizationCall (OrganizationFindOneAndUpdate f p) = True"
| "isOrganizationCall ev = False"

text \<open>
  The activation call fails when the transport rejects it or when the answer carries a
  non-empty \<^verbatim>\<open>Message\<close> (the test \<^verbatim>\<open>response?.Message\<close> of
  \<^verbatim>\<open>callActivateSubscriptionApi\<close>).
\<close>

definition activationFails :: "env \<Rightarrow> bool" where
  "activationFails e =
     (case activateResponse e of
        Inl err \<Rightarrow> True
      | Inr None \<Rightarrow> False
      | Inr (Some r) \<Rightarrow> truthy (Message r))"

text \<open>
  \<open>appends P w w'\<close>: the trace of \<open>w'\<close> is the trace of \<open>w\<close> followed by calls that all
  satisfy \<open>P\<close>.
\<close>

definition appends :: "(event \<Rightarrow> bool) \<Rightarrow> world \<Rightarrow> world \<Rightarrow> bool" where
  "appends P w w' =
     (take (length (trace w)) (trace w') = trace w
      \<and> list_all P (drop (length (trace w)) (trace w')))"

section \<open>What a resolve writes\<close>

text \<open>
  The block of \<^verbatim>\<open>resolveSubscription\<close> that persists an activated subscription (the body
  of \<^verbatim>\<open>if (subscriptionRes?.subscription)\<close>), named so that it can be reasoned about on
  its own; \<open>resolveSubscription_persist\<close> below shows it is that block.
\<close>

definition resolve_persist :: "env \<Rightarrow> ISubscription \<Rightarrow> world \<Rightarrow> (error + ISubscription option) \<times> world" where
  "resolve_persist e s w3 =
     (case getOrCreateOrganization e s w3 of
        (Inl err, w4) \<Rightarrow> (Inl err, w4)
      | (Inr organization, w4) \<Rightarrow>
          (case getOrganizationSubscription (Some organization) s of
             Inl err \<Rightarrow> (Inl err, w4)
           | Inr dbSubscription \<Rightarrow>
               (case (case dbSubscription of
                        None \<Rightarrow> Inr organization
                      | Some d \<Rightarrow>
                          (case subscriptions organization of
                             None \<Rightarrow> Inl TypeError
                           | Some subs \<Rightarrow>
                               Inr (organization\<lparr>subscriptions :=
                                 Some (filter (\<lambda>x. sub_id x \<noteq> sub_id d) subs)\<rparr>))) of
                  Inl err \<Rightarrow> (Inl err, w4)
                | Inr organization' \<Rightarrow>
                    (case updateOrganizationSubscriptions e organization' s w4 of
                       (Inl err, w5) \<Rightarrow> (Inl err, w5)
                     | (Inr updated, w5) \<Rightarrow>
                         (case getOrCreateSubscriptionOwners e s w5 of
                            (Inl err, w6) \<Rightarrow> (Inl err, w6)
                          | (Inr owners, w6) \<Rightarrow> (Inr (Some s), w6))))))"

text \<open>
  What a successful resolve writes. \<open>persistedSubscriptions s subs\<close> is the list written
  for an organization that held \<open>subs\<close>: the entries of another id, then \<open>s\<close>.
  \<open>upsertOwner s q\<close> is the effect on the users of the upsert of owner query \<open>q\<close>.
  \<open>settled m upd ds\<close>: the first document matching \<open>m\<close> exists and \<open>upd\<close> leaves it as
  it is.
\<close>

definition persistedSubscriptions :: "ISubscription \<Rightarrow> ISubscription list option \<Rightarrow> ISubscription list" where
  "persistedSubscriptions s subs =
     filter (\<lambda>x. sub_id x \<noteq> sub_id s) (case subs of None \<Rightarrow> [] | Some l \<Rightarrow> l) @ [s]"

definition upsertOwner :: "ISubscription \<Rightarrow> IUser \<Rightarrow> IUser list \<Rightarrow> IUser list" where
  "upsertOwner s q ds =
     snd (upsert (user_matches q) (user_patch (userData s q))
            (user_patch (userData s q) (q\<lparr>user_id := None\<rparr>)) ds)"

definition settled :: "(nat \<Rightarrow> 'd \<Rightarrow> bool) \<Rightarrow> ('d \<Rightarrow> 'd) \<Rightarrow> 'd list \<Rightarrow> bool" where
  "settled m upd ds = (case findFrom 0 m ds of None \<Rightarrow> False | Some i \<Rightarrow> upd (ds ! i) = ds ! i)"

text \<open>
  \<open>persistOrganization s\<close> is the effect on the organizations of the two organization
  writes of a successful resolve of \<open>s\<close>: find or create the purchaser's tenant, then
  replace its subscription list.
\<close>

definition persistOrganization :: "ISubscription \<Rightarrow> IOrganization list \<Rightarrow> IOrganization list" where
  "persistOrganization s ds =
     (case upsert (organization_matches (emptyOrganization\<lparr>org_tenantId := tenantId (purchaser s)\<rparr>))
             (organization_patch (emptyOrganization\<lparr>org_tenantId := tenantId (purchaser s)\<rparr>))
             (organization_patch (emptyOrganization\<lparr>org_tenantId := tenantId (purchaser s)\<rparr>)
                (emptyOrganization\<lparr>org_tenantId := tenantId (purchaser s), org_id := None\<rparr>)) ds of
        (k, ds1) \<Rightarrow>
          ds1[k := (ds1 ! k)\<lparr>subscriptions := Some (persistedSubscriptions s (subscriptions (ds1 ! k)))\<rparr>])"

section \<open>A concrete scenario\<close>

text \<open>
  The scenario of the specification: token \<^verbatim>\<open>tok-1\<close>, subscription \<^verbatim>\<open>sub-1\<close> of plan
  \<^verbatim>\<open>p1\<close> with quantity 5, bought by \<^verbatim>\<open>u1\<close> of tenant \<^verbatim>\<open>t1\<close>, pending fulfilment.
\<close>

definition scenario_purchaser :: Principal where
  "scenario_purchaser = \<lparr>emailId = ''u1@t1'', objectId = ''u1'', tenantId = Some ''t1'', pid = ''''\<rparr>"

definition scenario_beneficiary :: Principal where
  "scenario_beneficiary = \<lparr>emailId = ''u2@t1'', objectId = ''u2'', tenantId = Some ''t1'', pid = ''''\<rparr>"

definition scenario_subscription :: ISubscription where
  "scenario_subscription =
     \<lparr>sub_id = Some ''sub-1'', publisherId = ''pub'', offerId = ''offer'', sub_name = ''name'',
      saasSubscriptionStatus = ''PendingFulfillmentStart'',
      beneficiary = scenario_purchaser, purchaser = scenario_purchaser, planId = ''p1'',
      sub_term = \<lparr>termUnit = ''P1M'', startDate = '''', endDate = ''''\<rparr>,
      autoRenew = False, isTest = False, isFreeTrial = False, allowedCustomerOperations = [],
      sandboxType = ''None'', lastModified = '''', quantity = 5, sessionMode = ''None''\<rparr>"

definition scenario_env :: env where
  "scenario_env =
     \<lparr>authenticationResponse = Inr \<lparr>access_token = Some ''app-token''\<rparr>,
      resolveResponse = Inr (Some \<lparr>subscription = Some scenario_subscription\<rparr>),
      activateResponse = Inr None,
      storeFails = (\<lambda>n. False)\<rparr>"

definition scenario_world :: world where
  "scenario_world = \<lparr>organizations = [], users = [], trace = []\<rparr>"

text \<open>
  The tenant after that resolve: the subscription is active, \<^verbatim>\<open>u1\<close> is its licensed
  administrator, and \<^verbatim>\<open>u3\<close> holds a licence of another subscription. In
  \<open>scenario_world_orphan\<close> the organization has lost the subscription while \<^verbatim>\<open>u1\<close>
  is still bound to it.
\<close>

definition scenario_active :: ISubscription where
  "scenario_active = scenario_subscription\<lparr>saasSubscriptionStatus := Subscribed\<rparr>"

definition scenario_owner :: IUser where
  "scenario_owner = \<lparr>user_id = None, userId = Some ''u1'', user_tenantId = Some ''t1'',
     upn = Some ''u1@t1'', role = Some Admin, license = Some ''p1'', subscriptionId = Some ''sub-1''\<rparr>"

definition scenario_other :: IUser where
  "scenario_other = \<lparr>user_id = None, userId = Some ''u3'', user_tenantId = Some ''t1'',
     upn = Some ''u3@t1'', role = Some Member, license = Some ''p2'', subscriptionId = Some ''sub-2''\<rparr>"

definition scenario_world_active :: world where
  "scenario_world_active =
     \<lparr>organizations = [\<lparr>org_id = None, org_tenantId = Some ''t1'', subscriptions = Some [scenario_active]\<rparr>],
      users = [scenario_owner, scenario_other],
      trace = []\<rparr>"

definition scenario_world_orphan :: world where
  "scenario_world_orphan =
     \<lparr>organizations = [\<lparr>org_id = None, org_tenantId = Some ''t1'', subscriptions = Some []\<rparr>],
      users = [scenario_owner, scenario_other],
      trace = []\<rparr>"

text \<open>
  A subscription without \<^verbatim>\<open>id\<close> and without \<^verbatim>\<open>purchaser.tenantId\<close>, and an
  authentication answer without an access token.
\<close>

definition scenario_malformed :: ISubscription where
  "scenario_malformed =
     scenario_subscription\<lparr>sub_id := None, purchaser := scenario_purchaser\<lparr>tenantId := None\<rparr>\<rparr>"

definition scenario_env_malformed :: env where
  "scenario_env_malformed =
     scenario_env\<lparr>resolveResponse := Inr (Some \<lparr>subscription = Some scenario_malformed\<rparr>)\<rparr>"


definition scenario_gift :: ISubscription where
  "scenario_gift = scenario_subscription\<lparr>beneficiary := scenario_beneficiary\<rparr>"

definition scenario_env_gift :: env where
  "scenario_env_gift =
     scenario_env\<lparr>resolveResponse := Inr (Some \<lparr>subscription = Some scenario_gift\<rparr>)\<rparr>"

section \<open>The first match of a filter\<close>

lemma findFrom_Some_iff:
  "findFrom k m ds = Some i \<longleftrightarrow>
     k \<le> i \<and> i < k + length ds \<and> m i (ds ! (i - k)) \<and> (\<forall>j. k \<le> j \<and> j < i \<longrightarrow> \<not> m j (ds ! (j - k)))"
proof (induction ds arbitrary: k)
  case Nil
  then show ?case by simp
next
  case (Cons d ds)
  show ?case
  proof (cases "m k d")
    case True
    have "i = k" if "k \<le> i" "\<forall>j. k \<le> j \<and> j < i \<longrightarrow> \<not> m j ((d # ds) ! (j - k))"
    proof (rule ccontr)
      assume "i \<noteq> k"
      with that(1) have "k < i" by simp
      with that(2) have "\<not> m k ((d # ds) ! (k - k))" by blast
      with True show False by simp
    qed
    with True show ?thesis by auto
  next
    case False
    have step: "(d # ds) ! (j - k) = ds ! (j - Suc k)" if "Suc k \<le> j" for j
      using that by (simp add: Suc_diff_Suc Suc_le_eq)
    have "findFrom k m (d # ds) = Some i \<longleftrightarrow> findFrom (Suc k) m ds = Some i"
      using False by simp
    also have "\<dots> \<longleftrightarrow> Suc k \<le> i \<and> i < Suc k + length ds \<and> m i (ds ! (i - Suc k))
        \<and> (\<forall>j. Suc k \<le> j \<and> j < i \<longrightarrow> \<not> m j (ds ! (j - Suc k)))"
      by (rule Cons.IH)
    also have "\<dots> \<longleftrightarrow> k \<le> i \<and> i < k + length (d # ds) \<and> m i ((d # ds) ! (i - k))
        \<and> (\<forall>j. k \<le> j \<and> j < i \<longrightarrow> \<not> m j ((d # ds) ! (j - k)))"
      (is "?L \<longleftrightarrow> ?R")
    proof
      assume L: ?L
      have "\<not> m j ((d # ds) ! (j - k))" if "k \<le> j" "j < i" for j
      proof (cases "j = k")
        case True
        with False show ?thesis by simp
      next
        case False
        with that have "Suc k \<le> j" by simp
          from L that have "\<not> m j (ds ! (j - Suc k))" using \<open>Suc k \<le> j\<close> by blast
        with step[OF \<open>Suc k \<le> j\<close>] show ?thesis by simp
      qed
      moreover have "m i ((d # ds) ! (i - k))"
        using L step[of i] by simp
      moreover have "k \<le> i" "i < k + length (d # ds)"
        using L by simp_all
      ultimately show ?R by blast
    next
      assume R: ?R
      have "i \<noteq> k" using R False by auto
      with R have ik: "Suc k \<le> i" by simp
      have "\<not> m j (ds ! (j - Suc k))" if "Suc k \<le> j" "j < i" for j
      proof -
        from that have "k \<le> j \<and> j < i" by simp
        with R have "\<not> m j ((d # ds) ! (j - k))" by blast
        with step[OF that(1)] show ?thesis by simp
      qed
      moreover have "m i (ds ! (i - Suc k))"
        using R step[OF ik] by simp
      moreover have "i < Suc k + length ds"
        using R by simp
      ultimately show ?L using ik by blast
    qed
    finally show ?thesis .
  qed
qed

lemma findFrom0_Some_iff:
  "findFrom 0 m ds = Some i \<longleftrightarrow> i < length ds \<and> m i (ds ! i) \<and> (\<forall>j<i. \<not> m j (ds ! j))"
  by (simp add: findFrom_Some_iff)

lemma findFrom_None_iff:
  "findFrom k m ds = None \<longleftrightarrow> (\<forall>j<length ds. \<not> m (k + j) (ds ! j))"
proof (induction ds arbitrary: k)
  case Nil
  then show ?case by simp
next
  case (Cons d ds)
  show ?case
  proof (cases "m k d")
    case True
    then show ?thesis by auto
  next
    case False
    have "(\<forall>j<length (d # ds). \<not> m (k + j) ((d # ds) ! j)) \<longleftrightarrow> (\<forall>j<length ds. \<not> m (Suc k + j) (ds ! j))"
      using False by (auto simp: less_Suc_eq_0_disj)
    with False Cons.IH[of "Suc k"] show ?thesis by simp
  qed
qed

lemma findFrom0_None_iff:
  "findFrom 0 m ds = None \<longleftrightarrow> (\<forall>j<length ds. \<not> m j (ds ! j))"
  by (simp add: findFrom_None_iff)


section \<open>Activation\<close>

lemma callActivate_fails:
  assumes "activationFails e"
  shows "\<exists>err. callActivateSubscriptionApi e sid tok p w
           = (Inl err, record_event (PostActivate sid tok p) w)"
  using assms
  by (auto simp: activationFails_def callActivateSubscriptionApi_def post_activate_def truthy_def
      split: sum.splits option.splits)

text \<open>
  Claim C3. When the activation call of a resolve run fails (the transport rejects it, or
  the answer carries a non-empty \<^verbatim>\<open>Message\<close>), \<^verbatim>\<open>resolveSubscription\<close> throws, and
  the only calls it has made are the authentication, the resolve and the activation call:
  no repository is called, and the organizations and the users are what they were.
\<close>

theorem activation_failure_aborts_resolve:
  assumes "authenticationResponse e = Inr auth" and "access_token auth = Some tok" and "tok \<noteq> []"
    and "resolveResponse e = Inr (Some res)" and "subscription res = Some s"
    and "saasSubscriptionStatus s \<noteq> Subscribed" and "activationFails e"
  shows "\<exists>err w'. resolveSubscription e token w = (Inl err, w')
           \<and> organizations w' = organizations w \<and> users w' = users w
           \<and> trace w' = trace w @ [GetAppAuthenticationToken, PostResolve tok token,
                PostActivate (sub_id s) tok \<lparr>act_planId = planId s, act_quantity = quantity s\<rparr>]"
proof -
  let ?w2 = "record_event (PostResolve tok token) (record_event GetAppAuthenticationToken w)"
  let ?p = "\<lparr>act_planId = planId s, act_quantity = quantity s\<rparr>"
  obtain err where act: "callActivateSubscriptionApi e (sub_id s) tok ?p ?w2
      = (Inl err, record_event (PostActivate (sub_id s) tok ?p) ?w2)"
    using callActivate_fails[OF assms(7)] by blast
  have "resolveSubscription e token w = (Inl err, record_event (PostActivate (sub_id s) tok ?p) ?w2)"
    using assms(1-6) act
    by (simp add: resolveSubscription_def getAppAuthenticationToken_def getSubscriptionDetails_def post_resolve_def
        activateSubscription_def)
  then show ?thesis by (simp add: record_event_def)
qed

theorem activation_failure_aborts_resolve_witness:
  "activationFails (scenario_env\<lparr>activateResponse := Inr (Some \<lparr>Message = Some ''rejected''\<rparr>)\<rparr>)
   \<and> saasSubscriptionStatus scenario_subscription \<noteq> Subscribed
   \<and> (\<exists>err w'. resolveSubscription
          (scenario_env\<lparr>activateResponse := Inr (Some \<lparr>Message = Some ''rejected''\<rparr>)\<rparr>)
          ''tok-1'' scenario_world = (Inl err, w')
        \<and> organizations w' = organizations scenario_world \<and> users w' = users scenario_world
        \<and> trace w' = trace scenario_world @ [GetAppAuthenticationToken, PostResolve ''app-token'' ''tok-1'',
             PostActivate (sub_id scenario_subscription) ''app-token''
               \<lparr>act_planId = planId scenario_subscription, act_quantity = quantity scenario_subscription\<rparr>])"
proof -
  let ?e = "scenario_env\<lparr>activateResponse := Inr (Some \<lparr>Message = Some ''rejected''\<rparr>)\<rparr>"
  have f: "activationFails ?e"
    by (simp add: activationFails_def scenario_env_def truthy_def)
  have n: "saasSubscriptionStatus scenario_subscription \<noteq> Subscribed"
    by (simp add: scenario_subscription_def Subscribed_def)
  have a: "authenticationResponse ?e = Inr \<lparr>access_token = Some ''app-token''\<rparr>"
    by (simp add: scenario_env_def)
  have r: "resolveResponse ?e = Inr (Some \<lparr>subscription = Some scenario_subscription\<rparr>)"
    by (simp add: scenario_env_def)
  show ?thesis
    using f n activation_failure_aborts_resolve[OF a _ _ r _ n f, of "''app-token''" "''tok-1''" scenario_world]
    by simp
qed

section \<open>Traces and frames\<close>

lemma appends_iff: "appends P w w' \<longleftrightarrow> (\<exists>evs. trace w' = trace w @ evs \<and> list_all P evs)"
proof
  assume a: "appends P w w'"
  have "trace w' = take (length (trace w)) (trace w') @ drop (length (trace w)) (trace w')"
    by simp
  with a show "\<exists>evs. trace w' = trace w @ evs \<and> list_all P evs"
    unfolding appends_def by metis
next
  assume "\<exists>evs. trace w' = trace w @ evs \<and> list_all P evs"
  then show "appends P w w'" by (auto simp: appends_def)
qed

lemma appends_refl: "appends P w w"
  by (simp add: appends_def)

lemma appends_trans: "appends P w w1 \<Longrightarrow> appends P w1 w2 \<Longrightarrow> appends P w w2"
  by (auto simp: appends_iff)

lemma appends_filter:
  "appends P w w' \<Longrightarrow> (\<And>ev. P ev \<Longrightarrow> \<not> Q ev) \<Longrightarrow> filter Q (trace w') = filter Q (trace w)"
  by (auto simp: appends_iff list_all_iff filter_empty_conv)

lemma resolveSubscription_persist:
  "resolveSubscription e token w =
     (case getAppAuthenticationToken e w of
        (Inl err, w1) \<Rightarrow> (Inl err, w1)
      | (Inr auth, w1) \<Rightarrow>
          (case access_token auth of
             None \<Rightarrow> (Inr None, w1)
           | Some tok \<Rightarrow>
               if tok = [] then (Inr None, w1)
               else
                 (case getSubscriptionDetails e tok token w1 of
                    (Inl err, w2) \<Rightarrow> (Inl err, w2)
                  | (Inr None, w2) \<Rightarrow> (Inl TypeError, w2)
                  | (Inr (Some subscriptionRes), w2) \<Rightarrow>
                      (case activateSubscription e (subscription subscriptionRes) tok w2 of
                         (Inl err, w3) \<Rightarrow> (Inl err, w3)
                       | (Inr None, w3) \<Rightarrow> (Inr None, w3)
                       | (Inr (Some s), w3) \<Rightarrow> resolve_persist e s w3))))"
  unfolding resolveSubscription_def resolve_persist_def by (rule refl)

lemma userRepository_find_frame:
  assumes "userRepository_find e f w = (r, w')"
  shows "w' = record_event (UserFind f) w"
  using assms by (auto simp: userRepository_find_def split: if_splits)

lemma userRepository_findOneAndUpdate_frame:
  assumes "userRepository_findOneAndUpdate e f p w = (r, w')"
  shows "organizations w' = organizations w \<and> trace w' = trace w @ [UserFindOneAndUpdate f p]"
  using assms
  by (auto simp: userRepository_findOneAndUpdate_def record_event_def split: if_splits prod.splits)

lemma organizationRepository_findOne_frame:
  assumes "organizationRepository_findOne e f w = (r, w')"
  shows "w' = record_event (OrganizationFindOne f) w"
  using assms by (auto simp: organizationRepository_findOne_def split: if_splits)

lemma organizationRepository_findOneAndUpdate_frame:
  assumes "organizationRepository_findOneAndUpdate e f p w = (r, w')"
  shows "users w' = users w \<and> trace w' = trace w @ [OrganizationFindOneAndUpdate f p]"
  using assms
  by (auto simp: organizationRepository_findOneAndUpdate_def record_event_def split: if_splits prod.splits)

lemma removeAllSubscriptionUsers_loop_frame:
  "removeAllSubscriptionUsers_loop e found w = (r, w') \<Longrightarrow>
     organizations w' = organizations w \<and> appends isUserCall w w'"
proof (induction found arbitrary: w)
  case Nil
  then show ?case by (simp add: appends_refl)
next
  case (Cons user rest)
  obtain r1 w1 where step: "userRepository_findOneAndUpdate e (emptyUser\<lparr>user_id := user_id user\<rparr>)
      defaultUserSubscription w = (r1, w1)"
    by (cases "userRepository_findOneAndUpdate e (emptyUser\<lparr>user_id := user_id user\<rparr>)
      defaultUserSubscription w")
  from userRepository_findOneAndUpdate_frame[OF step]
  have f1: "organizations w1 = organizations w" and a1: "appends isUserCall w w1"
    by (auto simp: appends_iff)
  show ?case
  proof (cases r1)
    case (Inl err)
    with Cons.prems step have "w' = w1" by simp
    with f1 a1 show ?thesis by simp
  next
    case (Inr u)
    with Cons.prems step have "removeAllSubscriptionUsers_loop e rest w1 = (r, w')" by simp
    from Cons.IH[OF this] f1 a1 show ?thesis by (auto intro: appends_trans)
  qed
qed

lemma removeAllSubscriptionUsers_frame:
  assumes "removeAllSubscriptionUsers e tid sid w = (r, w')"
  shows "organizations w' = organizations w \<and> appends isUserCall w w'"
proof -
  let ?f = "emptyUser\<lparr>user_tenantId := tid, subscriptionId := sid\<rparr>"
  obtain r1 w1 where step: "userRepository_find e ?f w = (r1, w1)"
    by (cases "userRepository_find e ?f w")
  from userRepository_find_frame[OF step]
  have f1: "organizations w1 = organizations w" and a1: "appends isUserCall w w1"
    by (auto simp: appends_iff record_event_def)
  show ?thesis
  proof (cases r1)
    case (Inl err)
    with assms step have "w' = w1" by (simp add: removeAllSubscriptionUsers_def)
    with f1 a1 show ?thesis by simp
  next
    case (Inr found)
    with assms step have "removeAllSubscriptionUsers_loop e found w1 = (r, w')"
      by (simp add: removeAllSubscriptionUsers_def)
    from removeAllSubscriptionUsers_loop_frame[OF this] f1 a1 show ?thesis
      by (auto intro: appends_trans)
  qed
qed

lemma updateOrganizationSubscriptions_frame:
  assumes "updateOrganizationSubscriptions e org s w = (r, w')"
  shows "users w' = users w \<and> appends isOrganizationCall w w'"
  using organizationRepository_findOneAndUpdate_frame[OF assms[unfolded updateOrganizationSubscriptions_def]]
  by (auto simp: appends_iff)

lemma getOrCreateOrganization_frame:
  assumes "getOrCreateOrganization e s w = (r, w')"
  shows "users w' = users w \<and> appends isOrganizationCall w w'"
  using organizationRepository_findOneAndUpdate_frame[OF assms[unfolded getOrCreateOrganization_def]]
  by (auto simp: appends_iff)

lemma updateSubscriptionStatus_frame:
  assumes "updateSubscriptionStatus e tid s w = (r, w')"
  shows "users w' = users w \<and> appends isOrganizationCall w w'"
proof -
  let ?f = "emptyOrganization\<lparr>org_tenantId := tid\<rparr>"
  obtain r1 w1 where step: "organizationRepository_findOne e ?f w = (r1, w1)"
    by (cases "organizationRepository_findOne e ?f w")
  from organizationRepository_findOne_frame[OF step]
  have f1: "users w1 = users w" and a1: "appends isOrganizationCall w w1"
    by (auto simp: appends_iff record_event_def)
  have "users w' = users w1 \<and> appends isOrganizationCall w1 w'"
    using assms step updateOrganizationSubscriptions_frame[of e _ _ w1 _ w']
    by (auto simp: updateSubscriptionStatus_def appends_refl
        split: sum.splits option.splits prod.splits)
  with f1 a1 show ?thesis by (auto intro: appends_trans)
qed

section \<open>Downgrading the users of a subscription\<close>

lemma user_matches_id: "user_matches (emptyUser\<lparr>user_id := Some i\<rparr>) j d \<longleftrightarrow> j = i"
  by (auto simp: user_matches_def emptyUser_def field_matches_def)

lemma findFrom_id:
  "findFrom 0 (user_matches (emptyUser\<lparr>user_id := Some i\<rparr>)) ds = (if i < length ds then Some i else None)"
  by (simp add: findFrom0_Some_iff findFrom0_None_iff user_matches_id)

lemma user_patch_default:
  "user_patch defaultUserSubscription d = d\<lparr>role := Some Member, subscriptionId := Some [], license := Some ''Free''\<rparr>"
  by (simp add: user_patch_def defaultUserSubscription_def emptyUser_def patch_field_def)

lemma findOneAndUpdate_by_id:
  assumes "userRepository_findOneAndUpdate e (emptyUser\<lparr>user_id := Some i\<rparr>) p w = (Inr u, w')"
    and "i < length (users w)"
  shows "users w' = (users w)[i := user_patch p (users w ! i)]"
  using assms
  by (auto simp: userRepository_findOneAndUpdate_def upsert_def findFrom_id record_event_def
      split: if_splits)

lemma removeAllSubscriptionUsers_loop_users:
  assumes "removeAllSubscriptionUsers_loop e (map (user_entity ds0) js) w = (Inr u, w')"
    and "list_all (\<lambda>j. j < length (users w)) js"
  shows "users w' = fold (\<lambda>j ds. ds[j := user_patch defaultUserSubscription (ds ! j)]) js (users w)"
  using assms
proof (induction js arbitrary: w)
  case Nil
  then show ?case by simp
next
  case (Cons j js)
  let ?f = "emptyUser\<lparr>user_id := Some j\<rparr>"
  obtain r1 w1 where step: "userRepository_findOneAndUpdate e ?f defaultUserSubscription w = (r1, w1)"
    by (cases "userRepository_findOneAndUpdate e ?f defaultUserSubscription w")
  have id: "user_id (user_entity ds0 j) = Some j"
    by (simp add: user_entity_def)
  from Cons.prems(1) step obtain u1 where r1: "r1 = Inr u1"
    by (cases r1) (auto simp: id)
  from Cons.prems(1) step r1 have rest: "removeAllSubscriptionUsers_loop e (map (user_entity ds0) js) w1 = (Inr u, w')"
    by (simp add: id)
  from Cons.prems(2) have j: "j < length (users w)" by simp
  from findOneAndUpdate_by_id[OF step[unfolded r1] j]
  have u1: "users w1 = (users w)[j := user_patch defaultUserSubscription (users w ! j)]" .
  with Cons.prems(2) have "list_all (\<lambda>j. j < length (users w1)) js" by simp
  from Cons.IH[OF rest this] u1 show ?case by simp
qed

lemma fold_patch_length:
  "length (fold (\<lambda>j ds. ds[j := g (ds ! j)]) js ds) = length ds"
  by (induction js arbitrary: ds) simp_all

lemma fold_patch_nth:
  assumes "\<And>d. g (g d) = g d" and "i < length ds"
  shows "fold (\<lambda>j ds. ds[j := g (ds ! j)]) js ds ! i = (if i \<in> set js then g (ds ! i) else ds ! i)"
  using assms(2)
proof (induction js arbitrary: ds)
  case Nil
  then show ?case by simp
next
  case (Cons j js)
  let ?ds = "ds[j := g (ds ! j)]"
  from Cons.prems have "i < length ?ds" by simp
  from Cons.IH[OF this]
  have "fold (\<lambda>j ds. ds[j := g (ds ! j)]) (j # js) ds ! i = (if i \<in> set js then g (?ds ! i) else ?ds ! i)"
    by simp
  also have "\<dots> = (if i \<in> set (j # js) then g (ds ! i) else ds ! i)"
    using Cons.prems assms(1) by (cases "i = j") auto
  finally show ?case .
qed

lemma set_findAll: "set (findAll m ds) = {i. i < length ds \<and> m i (ds ! i)}"
  by (auto simp: findAll_def)

lemma removeAllSubscriptionUsers_users:
  assumes "removeAllSubscriptionUsers e tid sid w = (Inr u, w')"
  shows "length (users w') = length (users w) \<and>
     (\<forall>i<length (users w). users w' ! i =
        (if user_matches (emptyUser\<lparr>user_tenantId := tid, subscriptionId := sid\<rparr>) i (users w ! i)
         then (users w ! i)\<lparr>role := Some Member, subscriptionId := Some [], license := Some ''Free''\<rparr>
         else users w ! i))"
proof -
  let ?f = "emptyUser\<lparr>user_tenantId := tid, subscriptionId := sid\<rparr>"
  let ?js = "findAll (user_matches ?f) (users w)"
  let ?g = "user_patch defaultUserSubscription"
  obtain r1 w1 where step: "userRepository_find e ?f w = (r1, w1)"
    by (cases "userRepository_find e ?f w")
  from assms step obtain found where r1: "r1 = Inr found"
    by (cases r1) (auto simp: removeAllSubscriptionUsers_def)
  from step r1 have found: "found = map (user_entity (users w)) ?js" and w1: "users w1 = users w"
    by (auto simp: userRepository_find_def record_event_def split: if_splits)
  from assms step r1 found
  have loop: "removeAllSubscriptionUsers_loop e (map (user_entity (users w)) ?js) w1 = (Inr u, w')"
    by (simp add: removeAllSubscriptionUsers_def)
  have "list_all (\<lambda>j. j < length (users w1)) ?js"
    by (simp add: list_all_iff set_findAll w1)
  from removeAllSubscriptionUsers_loop_users[OF loop this]
  have eq: "users w' = fold (\<lambda>j ds. ds[j := ?g (ds ! j)]) ?js (users w)"
    by (simp add: w1)
  have idem: "?g (?g d) = ?g d" for d
    by (simp add: user_patch_default)
  have nth: "users w' ! i = (if user_matches ?f i (users w ! i) then ?g (users w ! i) else users w ! i)"
    if "i < length (users w)" for i
    using fold_patch_nth[of ?g i "users w" ?js, OF idem that] that
    by (simp add: eq set_findAll)
  have len: "length (users w') = length (users w)"
    unfolding eq by (rule fold_patch_length)
  from nth len show ?thesis
    by (simp add: user_patch_default)
qed

section \<open>Writing an organization\<close>

lemma organization_matches_id:
  "organization_matches (emptyOrganization\<lparr>org_id := Some k\<rparr>) j d \<longleftrightarrow> j = k"
  by (auto simp: organization_matches_def emptyOrganization_def field_matches_def)

lemma organization_findFrom_id:
  "findFrom 0 (organization_matches (emptyOrganization\<lparr>org_id := Some k\<rparr>)) ds
     = (if k < length ds then Some k else None)"
  by (simp add: findFrom0_Some_iff findFrom0_None_iff organization_matches_id)

lemma organization_matches_tenant:
  "organization_matches (emptyOrganization\<lparr>org_tenantId := tid\<rparr>) j d
     \<longleftrightarrow> field_matches tid (org_tenantId d)"
  by (simp add: organization_matches_def emptyOrganization_def field_matches_def)

lemma patch_field_same: "patch_field v v = v"
  by (cases v) (simp_all add: patch_field_def)

lemma updateOrganizationSubscriptions_fails:
  assumes "updateOrganizationSubscriptions e org sub w = (Inl err, w')"
  shows "organizations w' = organizations w \<and> err = StoreError"
  using assms
  by (auto simp: updateOrganizationSubscriptions_def organizationRepository_findOneAndUpdate_def
      record_event_def split: if_splits prod.splits)

lemma updateOrganizationSubscriptions_writes:
  assumes "updateOrganizationSubscriptions e org sub w = (Inr upd, w')"
    and "org_id org = Some k" and "k < length (organizations w)"
    and "org_tenantId org = org_tenantId (organizations w ! k)"
  shows "organizations w' = (organizations w)[k := (organizations w ! k)\<lparr>subscriptions :=
           Some (case subscriptions org of Some subs \<Rightarrow> subs @ [sub] | None \<Rightarrow> [sub])\<rparr>]"
proof -
  have "organization_patch (org\<lparr>subscriptions := Some l\<rparr>) (organizations w ! k)
      = (organizations w ! k)\<lparr>subscriptions := Some l\<rparr>" for l
    using assms(4)
    by (cases "organizations w ! k") (simp add: organization_patch_def patch_field_same patch_field_def)
  with assms(1-3) show ?thesis
    by (auto simp: updateOrganizationSubscriptions_def organizationRepository_findOneAndUpdate_def
        upsert_def organization_findFrom_id record_event_def split: if_splits)
qed

lemma organizationRepository_findOne_result:
  assumes "organizationRepository_findOne e f w = (Inr r, w')"
  shows "r = map_option (organization_entity (organizations w)) (findFrom 0 (organization_matches f) (organizations w))
     \<and> organizations w' = organizations w"
  using assms by (auto simp: organizationRepository_findOne_def record_event_def split: if_splits)

lemma find_filter_same:
  "List.find P xs = Some d \<Longrightarrow> P d"
  by (induction xs) (auto split: if_splits)

lemma updateSubscriptionStatus_succeeds:
  assumes "updateSubscriptionStatus e tid s w = (Inr u, w')"
  shows "\<exists>k subs d. findFrom 0 (organization_matches (emptyOrganization\<lparr>org_tenantId := tid\<rparr>)) (organizations w) = Some k
      \<and> subscriptions (organizations w ! k) = Some subs
      \<and> List.find (\<lambda>x. sub_id x = sub_id s) subs = Some d
      \<and> organizations w' = (organizations w)[k := (organizations w ! k)\<lparr>subscriptions :=
           Some (filter (\<lambda>x. sub_id x \<noteq> sub_id s) subs @ [d\<lparr>saasSubscriptionStatus := Unsubscribed\<rparr>])\<rparr>]"
proof -
  let ?f = "emptyOrganization\<lparr>org_tenantId := tid\<rparr>"
  obtain r1 w1 where step: "organizationRepository_findOne e ?f w = (r1, w1)"
    by (cases "organizationRepository_findOne e ?f w")
  from assms step obtain organization where r1: "r1 = Inr organization"
    by (cases r1) (auto simp: updateSubscriptionStatus_def)
  from organizationRepository_findOne_result[OF step[unfolded r1]]
  have org: "organization = map_option (organization_entity (organizations w))
        (findFrom 0 (organization_matches ?f) (organizations w))"
    and w1: "organizations w1 = organizations w" by simp_all
  from assms step r1 obtain org0 subs d upd where
    o: "organization = Some org0" and sb: "subscriptions org0 = Some subs"
    and fd: "List.find (\<lambda>x. sub_id x = sub_id s) subs = Some d"
    and wr: "updateOrganizationSubscriptions e
               (org0\<lparr>subscriptions := Some (filter (\<lambda>x. sub_id x \<noteq> sub_id d) subs)\<rparr>)
               (d\<lparr>saasSubscriptionStatus := Unsubscribed\<rparr>) w1 = (Inr upd, w')"
    by (auto simp: updateSubscriptionStatus_def getOrganizationSubscription_def
        split: sum.splits option.splits prod.splits)
  from org o obtain k where k: "findFrom 0 (organization_matches ?f) (organizations w) = Some k"
    and org0: "org0 = organization_entity (organizations w) k"
    by (cases "findFrom 0 (organization_matches ?f) (organizations w)") auto
  from k have klt: "k < length (organizations w)" by (simp add: findFrom0_Some_iff)
  from find_filter_same[OF fd] have did: "sub_id d = sub_id s" .
  from updateOrganizationSubscriptions_writes[OF wr, of k] klt org0 w1
  have "organizations w' = (organizations w)[k := (organizations w ! k)\<lparr>subscriptions :=
           Some (filter (\<lambda>x. sub_id x \<noteq> sub_id d) subs @ [d\<lparr>saasSubscriptionStatus := Unsubscribed\<rparr>])\<rparr>]"
    by (simp add: organization_entity_def)
  moreover from sb org0 have "subscriptions (organizations w ! k) = Some subs"
    by (simp add: organization_entity_def)
  ultimately show ?thesis using k fd did by simp
qed

lemma updateSubscriptionStatus_fails:
  assumes "updateSubscriptionStatus e tid s w = (Inl err, w')"
  shows "organizations w' = organizations w \<and> (err = TypeError \<or> err = StoreError)"
proof -
  let ?f = "emptyOrganization\<lparr>org_tenantId := tid\<rparr>"
  obtain r1 w1 where step: "organizationRepository_findOne e ?f w = (r1, w1)"
    by (cases "organizationRepository_findOne e ?f w")
  have w1: "organizations w1 = organizations w"
    using organizationRepository_findOne_frame[OF step] by (simp add: record_event_def)
  show ?thesis
  proof (cases r1)
    case (Inl err1)
    with assms step have "w' = w1" "err = err1" by (auto simp: updateSubscriptionStatus_def)
    moreover from step Inl have "err1 = StoreError"
      by (auto simp: organizationRepository_findOne_def split: if_splits)
    ultimately show ?thesis using w1 by simp
  next
    case (Inr organization)
    with assms step w1 show ?thesis
      using updateOrganizationSubscriptions_fails[of e _ _ w1 err w']
      by (auto simp: updateSubscriptionStatus_def getOrganizationSubscription_def
          split: sum.splits option.splits prod.splits)
  qed
qed

section \<open>Unsubscribe\<close>

lemmas scenario_defs = scenario_purchaser_def scenario_subscription_def scenario_env_def
  scenario_world_def scenario_active_def Subscribed_def Unsubscribed_def

lemmas scenario_active_defs = scenario_owner_def scenario_other_def scenario_world_active_def

lemmas scenario_gift_defs = scenario_beneficiary_def scenario_gift_def scenario_env_gift_def

lemmas repository_defs = record_event_def findAll_def upsert_def field_matches_def patch_field_def
  user_matches_def user_patch_def user_entity_def organization_matches_def organization_patch_def
  organization_entity_def userRepository_find_def userRepository_findOneAndUpdate_def
  organizationRepository_findOne_def organizationRepository_findOneAndUpdate_def
  emptyUser_def emptyOrganization_def

lemmas service_defs = getAppAuthenticationToken_def getSubscriptionDetails_def post_resolve_def
  callActivateSubscriptionApi_def post_activate_def activateSubscription_def getOrganizationSubscription_def
  updateOrganizationSubscriptions_def getOrCreateOrganization_def prepareFindOwnerQuery_def
  userData_def findOwnerOrCreateUser_def getOrCreateSubscriptionOwners_def
  resolveSubscription_def defaultUserSubscription_def removeAllSubscriptionUsers_def
  updateSubscriptionStatus_def removeSubscription_def

lemma removeSubscription_cases:
  assumes "removeSubscription e s w = (r, w')"
  obtains (users_failed) err where
      "removeAllSubscriptionUsers e (tenantId (purchaser s)) (sub_id s) w = (Inl err, w')" "r = Inl err"
  | (users_done) u w1 where
      "removeAllSubscriptionUsers e (tenantId (purchaser s)) (sub_id s) w = (Inr u, w1)"
      "updateSubscriptionStatus e (tenantId (purchaser s)) s w1 = (r, w')"
  using assms
  by (auto simp: removeSubscription_def split: prod.splits sum.splits)

text \<open>
  Claim C4. After a successful \<^verbatim>\<open>removeSubscription\<close> of \<open>s\<close>, every user that
  matched \<^verbatim>\<open>{tenantId: s.purchaser.tenantId, subscriptionId: s.id}\<close> is the user it was with
  \<^verbatim>\<open>role = Member\<close>, \<^verbatim>\<open>subscriptionId = ""\<close> and \<^verbatim>\<open>license = "Free"\<close>: its other
  fields, such as \<^verbatim>\<open>upn\<close>, are kept. The other users are untouched.
\<close>

theorem unsubscribe_clears_licenses:
  assumes "removeSubscription e s w = (Inr u, w')"
  shows "length (users w') = length (users w) \<and>
     (\<forall>i<length (users w). users w' ! i =
        (if user_matches (emptyUser\<lparr>user_tenantId := tenantId (purchaser s), subscriptionId := sub_id s\<rparr>)
              i (users w ! i)
         then (users w ! i)\<lparr>role := Some Member, subscriptionId := Some [], license := Some ''Free''\<rparr>
         else users w ! i))"
  using assms
proof (cases rule: removeSubscription_cases)
  case (users_failed err)
  then show ?thesis by simp
next
  case (users_done u1 w1)
  from updateSubscriptionStatus_frame[OF users_done(2)] have "users w' = users w1" by simp
  with removeAllSubscriptionUsers_users[OF users_done(1)] show ?thesis by simp
qed

lemma scenario_unsubscribe_succeeds:
  "fst (removeSubscription scenario_env scenario_subscription scenario_world_active) = Inr ()"
  by (simp add: scenario_defs scenario_active_defs repository_defs service_defs)

theorem unsubscribe_clears_licenses_witness:
  "\<exists>w'. removeSubscription scenario_env scenario_subscription scenario_world_active = (Inr (), w')
     \<and> length (users w') = 2
     \<and> users w' ! 0 = scenario_owner\<lparr>role := Some Member, subscriptionId := Some [], license := Some ''Free''\<rparr>
     \<and> upn (users w' ! 0) = Some ''u1@t1''
     \<and> users w' ! 1 = scenario_other"
proof -
  obtain w' where run: "removeSubscription scenario_env scenario_subscription scenario_world_active = (Inr (), w')"
    using scenario_unsubscribe_succeeds
    by (cases "removeSubscription scenario_env scenario_subscription scenario_world_active") auto
  have us: "users scenario_world_active = [scenario_owner, scenario_other]"
    by (simp add: scenario_world_active_def)
  have m0: "user_matches (emptyUser\<lparr>user_tenantId := tenantId (purchaser scenario_subscription),
        subscriptionId := sub_id scenario_subscription\<rparr>) 0 scenario_owner"
    by (simp add: scenario_defs scenario_active_defs repository_defs)
  have m1: "\<not> user_matches (emptyUser\<lparr>user_tenantId := tenantId (purchaser scenario_subscription),
        subscriptionId := sub_id scenario_subscription\<rparr>) 1 scenario_other"
    by (simp add: scenario_defs scenario_active_defs repository_defs)
  from unsubscribe_clears_licenses[OF run]
  have len: "length (users w') = 2"
    and nth: "\<forall>i<2. users w' ! i =
        (if user_matches (emptyUser\<lparr>user_tenantId := tenantId (purchaser scenario_subscription),
              subscriptionId := sub_id scenario_subscription\<rparr>) i ([scenario_owner, scenario_other] ! i)
         then ([scenario_owner, scenario_other] ! i)\<lparr>role := Some Member, subscriptionId := Some [], license := Some ''Free''\<rparr>
         else [scenario_owner, scenario_other] ! i)"
    by (simp_all add: us)
  from nth m0 have u0: "users w' ! 0 = scenario_owner\<lparr>role := Some Member, subscriptionId := Some [], license := Some ''Free''\<rparr>"
    by (elim allE[of _ 0]) simp
  from nth m1 have u1: "users w' ! 1 = scenario_other"
    by (elim allE[of _ 1]) simp
  from u0 have "upn (users w' ! 0) = Some ''u1@t1''"
    by (simp add: scenario_owner_def)
  with run len u0 u1 show ?thesis by blast
qed

lemma findFrom_update_kept:
  assumes "findFrom 0 m ds = Some k" and "m k d'"
  shows "findFrom 0 m (ds[k := d']) = Some k"
  using assms by (simp add: findFrom0_Some_iff)

text \<open>
  Claim C5. After a successful \<^verbatim>\<open>removeSubscription\<close> of \<open>s\<close>, the organization found
  for the purchaser's tenant held an entry \<open>d\<close> with the id of \<open>s\<close>, it is still the
  organization found for that tenant, and its persisted list is the former list without
  the entries of that id, followed by \<open>d\<close> flagged \<^verbatim>\<open>Unsubscribed\<close>: exactly one entry
  has the id of \<open>s\<close>, and it is that one.
\<close>

theorem unsubscribe_retains_and_flags_subscription:
  assumes "removeSubscription e s w = (Inr u, w')"
  shows "\<exists>k subs d.
       findFrom 0 (organization_matches (emptyOrganization\<lparr>org_tenantId := tenantId (purchaser s)\<rparr>))
         (organizations w) = Some k
     \<and> subscriptions (organizations w ! k) = Some subs
     \<and> List.find (\<lambda>x. sub_id x = sub_id s) subs = Some d
     \<and> findFrom 0 (organization_matches (emptyOrganization\<lparr>org_tenantId := tenantId (purchaser s)\<rparr>))
         (organizations w') = Some k
     \<and> subscriptions (organizations w' ! k)
         = Some (filter (\<lambda>x. sub_id x \<noteq> sub_id s) subs @ [d\<lparr>saasSubscriptionStatus := Unsubscribed\<rparr>])
     \<and> filter (\<lambda>x. sub_id x = sub_id s)
         (filter (\<lambda>x. sub_id x \<noteq> sub_id s) subs @ [d\<lparr>saasSubscriptionStatus := Unsubscribed\<rparr>])
         = [d\<lparr>saasSubscriptionStatus := Unsubscribed\<rparr>]"
  using assms
proof (cases rule: removeSubscription_cases)
  case (users_failed err)
  then show ?thesis by simp
next
  case (users_done u1 w1)
  let ?m = "organization_matches (emptyOrganization\<lparr>org_tenantId := tenantId (purchaser s)\<rparr>)"
  from removeAllSubscriptionUsers_frame[OF users_done(1)]
  have w1: "organizations w1 = organizations w" by simp
  from updateSubscriptionStatus_succeeds[OF users_done(2)]
  obtain k subs d where k: "findFrom 0 ?m (organizations w) = Some k"
    and sb: "subscriptions (organizations w ! k) = Some subs"
    and fd: "List.find (\<lambda>x. sub_id x = sub_id s) subs = Some d"
    and w': "organizations w' = (organizations w)[k := (organizations w ! k)\<lparr>subscriptions :=
           Some (filter (\<lambda>x. sub_id x \<noteq> sub_id s) subs @ [d\<lparr>saasSubscriptionStatus := Unsubscribed\<rparr>])\<rparr>]"
    unfolding w1 by blast
  from k have klt: "k < length (organizations w)" and mk: "?m k (organizations w ! k)"
    by (simp_all add: findFrom0_Some_iff)
  from mk have "?m k ((organizations w ! k)\<lparr>subscriptions :=
           Some (filter (\<lambda>x. sub_id x \<noteq> sub_id s) subs @ [d\<lparr>saasSubscriptionStatus := Unsubscribed\<rparr>])\<rparr>)"
    by (simp add: organization_matches_tenant)
  from findFrom_update_kept[OF k this]
  have k': "findFrom 0 ?m (organizations w') = Some k" by (simp add: w')
  from klt have sb': "subscriptions (organizations w' ! k)
      = Some (filter (\<lambda>x. sub_id x \<noteq> sub_id s) subs @ [d\<lparr>saasSubscriptionStatus := Unsubscribed\<rparr>])"
    by (simp add: w')
  from find_filter_same[OF fd] have "sub_id d = sub_id s" .
  then have "filter (\<lambda>x. sub_id x = sub_id s)
         (filter (\<lambda>x. sub_id x \<noteq> sub_id s) subs @ [d\<lparr>saasSubscriptionStatus := Unsubscribed\<rparr>])
         = [d\<lparr>saasSubscriptionStatus := Unsubscribed\<rparr>]"
    by (simp add: filter_empty_conv)
  with k sb fd k' sb' show ?thesis by blast
qed

theorem unsubscribe_retains_and_flags_subscription_witness:
  "\<exists>w'. removeSubscription scenario_env scenario_subscription scenario_world_active = (Inr (), w')
     \<and> subscriptions (organizations w' ! 0)
         = Some [scenario_active\<lparr>saasSubscriptionStatus := Unsubscribed\<rparr>]"
proof -
  let ?m = "organization_matches (emptyOrganization\<lparr>org_tenantId := tenantId (purchaser scenario_subscription)\<rparr>)"
  obtain w' where run: "removeSubscription scenario_env scenario_subscription scenario_world_active = (Inr (), w')"
    using scenario_unsubscribe_succeeds
    by (cases "removeSubscription scenario_env scenario_subscription scenario_world_active") auto
  have k0: "findFrom 0 ?m (organizations scenario_world_active) = Some 0"
    by (simp add: scenario_defs scenario_active_defs repository_defs)
  have sb0: "subscriptions (organizations scenario_world_active ! 0) = Some [scenario_active]"
    by (simp add: scenario_world_active_def)
  have id0: "sub_id scenario_active = sub_id scenario_subscription"
    by (simp add: scenario_active_def)
  from unsubscribe_retains_and_flags_subscription[OF run] k0 sb0
  obtain d where "List.find (\<lambda>x. sub_id x = sub_id scenario_subscription) [scenario_active] = Some d"
    and "subscriptions (organizations w' ! 0)
         = Some (filter (\<lambda>x. sub_id x \<noteq> sub_id scenario_subscription) [scenario_active]
                  @ [d\<lparr>saasSubscriptionStatus := Unsubscribed\<rparr>])"
    by auto
  with id0 have "subscriptions (organizations w' ! 0)
         = Some [scenario_active\<lparr>saasSubscriptionStatus := Unsubscribed\<rparr>]"
    by auto
  with run show ?thesis by blast
qed

text \<open>
  Claim C9. In every run of \<^verbatim>\<open>removeSubscription\<close> the calls made are first calls to the
  user repository only (the run of \<^verbatim>\<open>removeAllSubscriptionUsers\<close>), then calls to the
  organization repository only. In the state between the two steps the organizations are
  what they were, and the matched users are downgraded when the first step succeeded; the
  second step leaves the users alone. The organizations change only when both steps
  succeeded, so a run that stops in between never leaves the subscription flagged with
  its users still licensed.
\<close>

theorem unsubscribe_downgrades_users_before_organization:
  assumes "removeAllSubscriptionUsers e (tenantId (purchaser s)) (sub_id s) w = (r1, w1)"
    and "removeSubscription e s w = (r, w')"
  shows "(\<exists>us os. trace w1 = trace w @ us \<and> trace w' = trace w @ us @ os
            \<and> list_all isUserCall us \<and> list_all isOrganizationCall os)
       \<and> organizations w1 = organizations w
       \<and> users w' = users w1
       \<and> (r1 = Inr () \<longrightarrow>
            (\<forall>i<length (users w). users w1 ! i =
               (if user_matches (emptyUser\<lparr>user_tenantId := tenantId (purchaser s), subscriptionId := sub_id s\<rparr>)
                     i (users w ! i)
                then (users w ! i)\<lparr>role := Some Member, subscriptionId := Some [], license := Some ''Free''\<rparr>
                else users w ! i)))
       \<and> (organizations w' \<noteq> organizations w \<longrightarrow> r1 = Inr () \<and> r = Inr ())"
proof -
  from removeAllSubscriptionUsers_frame[OF assms(1)]
  have o1: "organizations w1 = organizations w" and a1: "appends isUserCall w w1" by simp_all
  from a1 obtain us where us: "trace w1 = trace w @ us" "list_all isUserCall us"
    by (auto simp: appends_iff)
  have down: "\<forall>i<length (users w). users w1 ! i =
               (if user_matches (emptyUser\<lparr>user_tenantId := tenantId (purchaser s), subscriptionId := sub_id s\<rparr>)
                     i (users w ! i)
                then (users w ! i)\<lparr>role := Some Member, subscriptionId := Some [], license := Some ''Free''\<rparr>
                else users w ! i)" if "r1 = Inr ()"
    using removeAllSubscriptionUsers_users[OF assms(1)[unfolded that]] by simp
  show ?thesis
  proof (cases r1)
    case (Inl err)
    with assms have "w' = w1" "r = Inl err"
      by (simp_all add: removeSubscription_def)
    with us o1 Inl show ?thesis by auto
  next
    case (Inr u1)
    with assms have step2: "updateSubscriptionStatus e (tenantId (purchaser s)) s w1 = (r, w')"
      by (simp add: removeSubscription_def)
    from updateSubscriptionStatus_frame[OF step2]
    have u2: "users w' = users w1" and a2: "appends isOrganizationCall w1 w'" by simp_all
    from a2 us obtain os where os: "trace w' = trace w @ us @ os" "list_all isOrganizationCall os"
      by (auto simp: appends_iff)
    have "r = Inr ()" if "organizations w' \<noteq> organizations w"
    proof (cases r)
      case (Inl err)
      from updateSubscriptionStatus_fails[OF step2[unfolded Inl]] o1 that show ?thesis by simp
    next
      case (Inr u2)
      then show ?thesis by simp
    qed
    with us os o1 u2 down Inr show ?thesis by auto
  qed
qed

theorem unsubscribe_downgrades_users_before_organization_witness:
  "\<exists>r1 w1 r w' us os.
       removeAllSubscriptionUsers scenario_env (tenantId (purchaser scenario_subscription))
         (sub_id scenario_subscription) scenario_world_active = (r1, w1)
     \<and> removeSubscription scenario_env scenario_subscription scenario_world_active = (r, w')
     \<and> trace w1 = trace scenario_world_active @ us \<and> trace w' = trace scenario_world_active @ us @ os
     \<and> list_all isUserCall us \<and> list_all isOrganizationCall os
     \<and> organizations w1 = organizations scenario_world_active
     \<and> users w' = users w1"
proof -
  obtain r1 w1 where s1: "removeAllSubscriptionUsers scenario_env (tenantId (purchaser scenario_subscription))
         (sub_id scenario_subscription) scenario_world_active = (r1, w1)"
    by (cases "removeAllSubscriptionUsers scenario_env (tenantId (purchaser scenario_subscription))
         (sub_id scenario_subscription) scenario_world_active")
  obtain r w' where s2: "removeSubscription scenario_env scenario_subscription scenario_world_active = (r, w')"
    by (cases "removeSubscription scenario_env scenario_subscription scenario_world_active")
  from unsubscribe_downgrades_users_before_organization[OF s1 s2] s1 s2
  show ?thesis by blast
qed

section \<open>Unsubscribing an unknown subscription\<close>

lemma userRepository_findOneAndUpdate_error:
  assumes "userRepository_findOneAndUpdate e f p w = (Inl err, w')"
  shows "err = StoreError \<and> storeFails e (length (trace w))"
  using assms by (auto simp: userRepository_findOneAndUpdate_def split: if_splits prod.splits)

lemma removeAllSubscriptionUsers_loop_error:
  "removeAllSubscriptionUsers_loop e found w = (Inl err, w') \<Longrightarrow> err = StoreError \<and> (\<exists>n. storeFails e n)"
proof (induction found arbitrary: w)
  case Nil
  then show ?case by simp
next
  case (Cons user rest)
  then show ?case
    using userRepository_findOneAndUpdate_error[of e _ _ w]
    by (fastforce split: prod.splits sum.splits)
qed

lemma removeAllSubscriptionUsers_error:
  assumes "removeAllSubscriptionUsers e tid sid w = (Inl err, w')"
  shows "err = StoreError \<and> (\<exists>n. storeFails e n)"
proof -
  let ?f = "emptyUser\<lparr>user_tenantId := tid, subscriptionId := sid\<rparr>"
  obtain r1 w1 where step: "userRepository_find e ?f w = (r1, w1)"
    by (cases "userRepository_find e ?f w")
  show ?thesis
  proof (cases r1)
    case (Inl err1)
    with step assms show ?thesis
      by (auto simp: removeAllSubscriptionUsers_def userRepository_find_def split: if_splits)
  next
    case (Inr found)
    with step assms have "removeAllSubscriptionUsers_loop e found w1 = (Inl err, w')"
      by (simp add: removeAllSubscriptionUsers_def)
    from removeAllSubscriptionUsers_loop_error[OF this] show ?thesis .
  qed
qed

lemma updateSubscriptionStatus_unknown:
  assumes "case findFrom 0 (organization_matches (emptyOrganization\<lparr>org_tenantId := tid\<rparr>)) (organizations w) of
             None \<Rightarrow> True
           | Some k \<Rightarrow> (case subscriptions (organizations w ! k) of
                          None \<Rightarrow> True
                        | Some subs \<Rightarrow> List.find (\<lambda>x. sub_id x = sub_id s) subs = None)"
  shows "\<exists>err w'. updateSubscriptionStatus e tid s w = (Inl err, w')
           \<and> (err = TypeError \<or> err = StoreError \<and> storeFails e (length (trace w)))"
  using assms
  by (auto simp: updateSubscriptionStatus_def organizationRepository_findOne_def
      getOrganizationSubscription_def organization_entity_def
      split: option.splits)

text \<open>
  Claim C10. When no organization is found for the purchaser's tenant, or the one found
  has no entry with the id of \<open>s\<close>, \<^verbatim>\<open>removeSubscription\<close> throws and leaves the
  organizations as they were. For an organization that is found,
  \<^verbatim>\<open>getOrganizationSubscription\<close> returns no entry, and \<^verbatim>\<open>updateSubscriptionStatus\<close>
  throws on setting the status of that absent entry. Unless a repository call was
  rejected, the error is this \<open>TypeError\<close>; and whenever it is, all matched users have
  been downgraded before, and stay so.
\<close>

theorem unsubscribe_unknown_subscription_throws:
  assumes "case findFrom 0 (organization_matches (emptyOrganization\<lparr>org_tenantId := tenantId (purchaser s)\<rparr>))
                  (organizations w) of
             None \<Rightarrow> True
           | Some k \<Rightarrow> (case subscriptions (organizations w ! k) of
                          None \<Rightarrow> True
                        | Some subs \<Rightarrow> List.find (\<lambda>x. sub_id x = sub_id s) subs = None)"
  shows "(\<exists>err w'. removeSubscription e s w = (Inl err, w')
      \<and> organizations w' = organizations w
      \<and> ((\<forall>n. \<not> storeFails e n) \<longrightarrow> err = TypeError)
      \<and> (err = TypeError \<longrightarrow>
           length (users w') = length (users w) \<and>
           (\<forall>i<length (users w). users w' ! i =
              (if user_matches (emptyUser\<lparr>user_tenantId := tenantId (purchaser s), subscriptionId := sub_id s\<rparr>)
                    i (users w ! i)
               then (users w ! i)\<lparr>role := Some Member, subscriptionId := Some [], license := Some ''Free''\<rparr>
               else users w ! i))))
    \<and> (\<forall>k. findFrom 0 (organization_matches (emptyOrganization\<lparr>org_tenantId := tenantId (purchaser s)\<rparr>))
               (organizations w) = Some k
           \<longrightarrow> getOrganizationSubscription (Some (organization_entity (organizations w) k)) s = Inr None)"
proof -
  obtain r1 w1 where s1: "removeAllSubscriptionUsers e (tenantId (purchaser s)) (sub_id s) w = (r1, w1)"
    by (cases "removeAllSubscriptionUsers e (tenantId (purchaser s)) (sub_id s) w")
  from removeAllSubscriptionUsers_frame[OF s1] have o1: "organizations w1 = organizations w" by simp
  have absent: "\<forall>k. findFrom 0 (organization_matches (emptyOrganization\<lparr>org_tenantId := tenantId (purchaser s)\<rparr>))
               (organizations w) = Some k
           \<longrightarrow> getOrganizationSubscription (Some (organization_entity (organizations w) k)) s = Inr None"
    using assms
    by (auto simp: getOrganizationSubscription_def organization_entity_def split: option.splits)
  have "\<exists>err w'. removeSubscription e s w = (Inl err, w')
      \<and> organizations w' = organizations w
      \<and> ((\<forall>n. \<not> storeFails e n) \<longrightarrow> err = TypeError)
      \<and> (err = TypeError \<longrightarrow>
           length (users w') = length (users w) \<and>
           (\<forall>i<length (users w). users w' ! i =
              (if user_matches (emptyUser\<lparr>user_tenantId := tenantId (purchaser s), subscriptionId := sub_id s\<rparr>)
                    i (users w ! i)
               then (users w ! i)\<lparr>role := Some Member, subscriptionId := Some [], license := Some ''Free''\<rparr>
               else users w ! i)))"
  proof (cases r1)
    case (Inl err)
    with s1 have run: "removeSubscription e s w = (Inl err, w1)"
      by (simp add: removeSubscription_def)
    from removeAllSubscriptionUsers_error[OF s1[unfolded Inl]]
    have "err = StoreError" "\<exists>n. storeFails e n" by simp_all
    with run o1 show ?thesis by auto
  next
    case (Inr u1)
    have "case findFrom 0 (organization_matches (emptyOrganization\<lparr>org_tenantId := tenantId (purchaser s)\<rparr>))
                  (organizations w1) of
             None \<Rightarrow> True
           | Some k \<Rightarrow> (case subscriptions (organizations w1 ! k) of
                          None \<Rightarrow> True
                        | Some subs \<Rightarrow> List.find (\<lambda>x. sub_id x = sub_id s) subs = None)"
      unfolding o1 by (rule assms)
    from updateSubscriptionStatus_unknown[OF this, of e]
    obtain err w' where s2: "updateSubscriptionStatus e (tenantId (purchaser s)) s w1 = (Inl err, w')"
      and err: "err = TypeError \<or> err = StoreError \<and> storeFails e (length (trace w1))"
      by blast
    from s1 Inr s2 have run: "removeSubscription e s w = (Inl err, w')"
      by (simp add: removeSubscription_def)
    from updateSubscriptionStatus_fails[OF s2] o1 have o2: "organizations w' = organizations w" by simp
    from updateSubscriptionStatus_frame[OF s2] have "users w' = users w1" by simp
    with removeAllSubscriptionUsers_users[OF s1[unfolded Inr]]
    have down: "length (users w') = length (users w) \<and>
           (\<forall>i<length (users w). users w' ! i =
              (if user_matches (emptyUser\<lparr>user_tenantId := tenantId (purchaser s), subscriptionId := sub_id s\<rparr>)
                    i (users w ! i)
               then (users w ! i)\<lparr>role := Some Member, subscriptionId := Some [], license := Some ''Free''\<rparr>
               else users w ! i))"
      by simp
    from err have "(\<forall>n. \<not> storeFails e n) \<longrightarrow> err = TypeError" by auto
    with run o2 down show ?thesis by blast
  qed
  with absent show ?thesis by blast
qed

theorem unsubscribe_unknown_subscription_throws_witness:
  "(case findFrom 0 (organization_matches (emptyOrganization\<lparr>org_tenantId := tenantId (purchaser scenario_subscription)\<rparr>))
                  (organizations scenario_world_orphan) of
             None \<Rightarrow> True
           | Some k \<Rightarrow> (case subscriptions (organizations scenario_world_orphan ! k) of
                          None \<Rightarrow> True
                        | Some subs \<Rightarrow> List.find (\<lambda>x. sub_id x = sub_id scenario_subscription) subs = None))
   \<and> (\<exists>w'. removeSubscription scenario_env scenario_subscription scenario_world_orphan = (Inl TypeError, w')
        \<and> organizations w' = organizations scenario_world_orphan
        \<and> users w' ! 0 = scenario_owner\<lparr>role := Some Member, subscriptionId := Some [], license := Some ''Free''\<rparr>)
   \<and> getOrganizationSubscription (Some (organization_entity (organizations scenario_world_orphan) 0))
         scenario_subscription = Inr None"
proof -
  have k0: "findFrom 0 (organization_matches (emptyOrganization\<lparr>org_tenantId := tenantId (purchaser scenario_subscription)\<rparr>))
                  (organizations scenario_world_orphan) = Some 0"
    by (simp add: scenario_defs scenario_owner_def scenario_other_def scenario_world_orphan_def repository_defs)
  have h: "case findFrom 0 (organization_matches (emptyOrganization\<lparr>org_tenantId := tenantId (purchaser scenario_subscription)\<rparr>))
                  (organizations scenario_world_orphan) of
             None \<Rightarrow> True
           | Some k \<Rightarrow> (case subscriptions (organizations scenario_world_orphan ! k) of
                          None \<Rightarrow> True
                        | Some subs \<Rightarrow> List.find (\<lambda>x. sub_id x = sub_id scenario_subscription) subs = None)"
    by (simp add: scenario_defs scenario_owner_def scenario_other_def scenario_world_orphan_def repository_defs)
  have nf: "\<forall>n. \<not> storeFails scenario_env n"
    by (simp add: scenario_env_def)
  have m0: "user_matches (emptyUser\<lparr>user_tenantId := tenantId (purchaser scenario_subscription),
        subscriptionId := sub_id scenario_subscription\<rparr>) 0 (users scenario_world_orphan ! 0)"
    by (simp add: scenario_defs scenario_owner_def scenario_other_def scenario_world_orphan_def repository_defs)
  have u0: "users scenario_world_orphan ! 0 = scenario_owner" "0 < length (users scenario_world_orphan)"
    by (simp_all add: scenario_world_orphan_def)
  from unsubscribe_unknown_subscription_throws[OF h, of scenario_env] k0
  have absent: "getOrganizationSubscription (Some (organization_entity (organizations scenario_world_orphan) 0))
         scenario_subscription = Inr None"
    by blast
  from unsubscribe_unknown_subscription_throws[OF h, of scenario_env] nf
  obtain w' where run: "removeSubscription scenario_env scenario_subscription scenario_world_orphan = (Inl TypeError, w')"
    and o: "organizations w' = organizations scenario_world_orphan"
    and d: "\<forall>i<length (users scenario_world_orphan). users w' ! i =
              (if user_matches (emptyUser\<lparr>user_tenantId := tenantId (purchaser scenario_subscription),
                      subscriptionId := sub_id scenario_subscription\<rparr>) i (users scenario_world_orphan ! i)
               then (users scenario_world_orphan ! i)\<lparr>role := Some Member, subscriptionId := Some [], license := Some ''Free''\<rparr>
               else users scenario_world_orphan ! i)"
    by blast
  from d u0(2) m0 have "users w' ! 0 = scenario_owner\<lparr>role := Some Member, subscriptionId := Some [], license := Some ''Free''\<rparr>"
    unfolding u0(1)[symmetric] by (elim allE[of _ 0]) simp
  with h run o absent show ?thesis by blast
qed

section \<open>Resolve\<close>

lemma callActivateSubscriptionApi_frame:
  assumes "callActivateSubscriptionApi e sid tok p w = (r, w')"
  shows "w' = record_event (PostActivate sid tok p) w"
  using assms
  by (auto simp: callActivateSubscriptionApi_def post_activate_def split: sum.splits option.splits if_splits)

lemma callActivateSubscriptionApi_succeeds:
  assumes "\<not> activationFails e"
  shows "callActivateSubscriptionApi e sid tok p w = (Inr (), record_event (PostActivate sid tok p) w)"
  using assms
  by (auto simp: callActivateSubscriptionApi_def post_activate_def activationFails_def truthy_def
      split: sum.splits option.splits)

lemma activateSubscription_result:
  assumes "activateSubscription e (Some s) tok w = (r, w')"
  shows "organizations w' = organizations w \<and> users w' = users w
     \<and> trace w' = trace w @
          (if saasSubscriptionStatus s = Subscribed then []
           else [PostActivate (sub_id s) tok \<lparr>act_planId = planId s, act_quantity = quantity s\<rparr>])
     \<and> (\<forall>x. r = Inr x \<longrightarrow> x = Some (s\<lparr>saasSubscriptionStatus := Subscribed\<rparr>))"
proof (cases "saasSubscriptionStatus s = Subscribed")
  case True
  with assms have "r = Inr (Some s)" "w' = w" by (simp_all add: activateSubscription_def)
  moreover from True have "s\<lparr>saasSubscriptionStatus := Subscribed\<rparr> = s" by simp
  ultimately show ?thesis using True by simp
next
  case False
  let ?p = "\<lparr>act_planId = planId s, act_quantity = quantity s\<rparr>"
  obtain r1 w1 where step: "callActivateSubscriptionApi e (sub_id s) tok ?p w = (r1, w1)"
    by (cases "callActivateSubscriptionApi e (sub_id s) tok ?p w")
  from callActivateSubscriptionApi_frame[OF step] have w1: "w1 = record_event (PostActivate (sub_id s) tok ?p) w" .
  from assms False step have "w' = w1" "\<forall>x. r = Inr x \<longrightarrow> x = Some (s\<lparr>saasSubscriptionStatus := Subscribed\<rparr>)"
    by (auto simp: activateSubscription_def split: sum.splits)
  with w1 False show ?thesis by (simp add: record_event_def)
qed

lemma findOwnerOrCreateUser_loop_frame:
  "findOwnerOrCreateUser_loop e qs s owners w = (r, w') \<Longrightarrow>
     organizations w' = organizations w \<and> appends isUserUpsert w w'
     \<and> (\<forall>x. r = Inr x \<longrightarrow> trace w' = trace w @ map (\<lambda>q. UserFindOneAndUpdate q (userData s q)) qs)"
proof (induction qs arbitrary: owners w)
  case Nil
  then show ?case by (auto simp: appends_refl)
next
  case (Cons q qs)
  obtain r1 w1 where step: "userRepository_findOneAndUpdate e q (userData s q) w = (r1, w1)"
    by (cases "userRepository_findOneAndUpdate e q (userData s q) w")
  from userRepository_findOneAndUpdate_frame[OF step]
  have o1: "organizations w1 = organizations w" and t1: "trace w1 = trace w @ [UserFindOneAndUpdate q (userData s q)]"
    by simp_all
  from t1 have a1: "appends isUserUpsert w w1" by (simp add: appends_iff)
  show ?case
  proof (cases r1)
    case (Inl err)
    with Cons.prems step have "w' = w1" "r = Inl err" by simp_all
    with o1 a1 show ?thesis by simp
  next
    case (Inr owner)
    with Cons.prems step have "findOwnerOrCreateUser_loop e qs s (owners @ [owner]) w1 = (r, w')" by simp
    from Cons.IH[OF this] o1 a1 t1 show ?thesis by (auto intro: appends_trans)
  qed
qed

lemma getOrCreateSubscriptionOwners_frame:
  assumes "getOrCreateSubscriptionOwners e s w = (r, w')"
  shows "organizations w' = organizations w \<and> appends isUserUpsert w w'
     \<and> (\<forall>x. r = Inr x \<longrightarrow> trace w' = trace w @ map (\<lambda>q. UserFindOneAndUpdate q (userData s q))
            (prepareFindOwnerQuery (objectId (purchaser s) = objectId (beneficiary s)) s))"
  using findOwnerOrCreateUser_loop_frame[OF assms[unfolded getOrCreateSubscriptionOwners_def findOwnerOrCreateUser_def]] .

lemma resolve_persist_cases:
  assumes "resolve_persist e s w = (r, w')"
  obtains (organization_failed) err where "r = Inl err" "appends isOrganizationCall w w'" "users w' = users w"
  | (owners) ro w5 where "appends isOrganizationCall w w5" "users w5 = users w"
      "getOrCreateSubscriptionOwners e s w5 = (ro, w')"
      "r = (case ro of Inl err \<Rightarrow> Inl err | Inr found \<Rightarrow> Inr (Some s))"
proof -
  obtain r4 w4 where s4: "getOrCreateOrganization e s w = (r4, w4)"
    by (cases "getOrCreateOrganization e s w")
  from getOrCreateOrganization_frame[OF s4]
  have f4: "users w4 = users w" "appends isOrganizationCall w w4" by simp_all
  show thesis
  proof (cases r4)
    case (Inl err)
    with assms s4 have "r = Inl err" "w' = w4" by (simp_all add: resolve_persist_def)
    with f4 organization_failed show ?thesis by simp
  next
    case (Inr organization)
    let ?prepared = "case getOrganizationSubscription (Some organization) s of
        Inl err \<Rightarrow> Inl err
      | Inr dbSubscription \<Rightarrow>
          (case dbSubscription of
             None \<Rightarrow> Inr organization
           | Some d \<Rightarrow>
               (case subscriptions organization of
                  None \<Rightarrow> Inl TypeError
                | Some subs \<Rightarrow>
                    Inr (organization\<lparr>subscriptions := Some (filter (\<lambda>x. sub_id x \<noteq> sub_id d) subs)\<rparr>)))"
    show ?thesis
    proof (cases ?prepared)
      case (Inl err)
      with assms s4 Inr have "r = Inl err" "w' = w4"
        by (auto simp: resolve_persist_def split: sum.splits option.splits)
      with f4 organization_failed show ?thesis by simp
    next
      case prep: (Inr organization')
      obtain r5 w5 where s5: "updateOrganizationSubscriptions e organization' s w4 = (r5, w5)"
        by (cases "updateOrganizationSubscriptions e organization' s w4")
      from updateOrganizationSubscriptions_frame[OF s5] f4
      have f5: "users w5 = users w" "appends isOrganizationCall w w5"
        by (auto intro: appends_trans)
      show ?thesis
      proof (cases r5)
        case (Inl err)
        with assms s4 Inr prep s5 have "r = Inl err" "w' = w5"
          by (auto simp: resolve_persist_def split: sum.splits option.splits)
        with f5 organization_failed show ?thesis by simp
      next
        case upd: (Inr updated)
        obtain ro w6 where s6: "getOrCreateSubscriptionOwners e s w5 = (ro, w6)"
          by (cases "getOrCreateSubscriptionOwners e s w5")
        with assms s4 Inr prep s5 upd
        have "w' = w6" "r = (case ro of Inl err \<Rightarrow> Inl err | Inr found \<Rightarrow> Inr (Some s))"
          by (auto simp: resolve_persist_def split: sum.splits option.splits)
        with f5 s6 owners show ?thesis by simp
      qed
    qed
  qed
qed

lemma event_kinds:
  "isOrganizationCall ev \<Longrightarrow> \<not> isPostActivate ev"
  "isOrganizationCall ev \<Longrightarrow> \<not> isUserUpsert ev"
  "isUserUpsert ev \<Longrightarrow> \<not> isPostActivate ev"
  by (cases ev; simp)+

lemma resolve_persist_frame:
  assumes "resolve_persist e s w = (r, w')"
  shows "filter isPostActivate (trace w') = filter isPostActivate (trace w)
     \<and> (\<forall>x. r = Inr x \<longrightarrow> x = Some s \<and>
          filter isUserUpsert (trace w') = filter isUserUpsert (trace w) @
            map (\<lambda>q. UserFindOneAndUpdate q (userData s q))
              (prepareFindOwnerQuery (objectId (purchaser s) = objectId (beneficiary s)) s))"
  using assms
proof (cases rule: resolve_persist_cases)
  case (organization_failed err)
  from appends_filter[OF organization_failed(2), of isPostActivate] organization_failed(1)
  show ?thesis by (simp add: event_kinds)
next
  case (owners ro w5)
  let ?qs = "prepareFindOwnerQuery (objectId (purchaser s) = objectId (beneficiary s)) s"
  from getOrCreateSubscriptionOwners_frame[OF owners(3)]
  have a6: "appends isUserUpsert w5 w'"
    and t6: "\<forall>x. ro = Inr x \<longrightarrow> trace w' = trace w5 @ map (\<lambda>q. UserFindOneAndUpdate q (userData s q)) ?qs"
    by simp_all
  have p5: "filter isPostActivate (trace w5) = filter isPostActivate (trace w)"
    by (rule appends_filter[OF owners(1)]) (simp add: event_kinds)
  have p6: "filter isPostActivate (trace w') = filter isPostActivate (trace w5)"
    by (rule appends_filter[OF a6]) (simp add: event_kinds)
  have u5: "filter isUserUpsert (trace w5) = filter isUserUpsert (trace w)"
    by (rule appends_filter[OF owners(1)]) (simp add: event_kinds)
  have "filter isUserUpsert (map (\<lambda>q. UserFindOneAndUpdate q (userData s q)) ?qs)
      = map (\<lambda>q. UserFindOneAndUpdate q (userData s q)) ?qs"
    by (simp add: filter_map o_def)
  with t6 u5 p5 p6 owners(4) show ?thesis
    by (cases ro) auto
qed

lemma resolveSubscription_fetched:
  assumes "authenticationResponse e = Inr auth" and "access_token auth = Some tok" and "tok \<noteq> []"
    and "resolveResponse e = Inr (Some res)"
  shows "resolveSubscription e token w =
     (case activateSubscription e (subscription res) tok
             (record_event (PostResolve tok token) (record_event GetAppAuthenticationToken w)) of
        (Inl err, w3) \<Rightarrow> (Inl err, w3)
      | (Inr None, w3) \<Rightarrow> (Inr None, w3)
      | (Inr (Some s), w3) \<Rightarrow> resolve_persist e s w3)"
  using assms
  by (simp add: resolveSubscription_persist getAppAuthenticationToken_def getSubscriptionDetails_def post_resolve_def)

lemma resolveSubscription_not_fetched:
  assumes "resolveSubscription e token w = (Inr x, w')"
  obtains (no_token) auth where "authenticationResponse e = Inr auth" "\<not> truthy (access_token auth)"
      "x = None" "w' = record_event GetAppAuthenticationToken w"
  | (fetched) auth tok res where "authenticationResponse e = Inr auth" "access_token auth = Some tok"
      "tok \<noteq> []" "resolveResponse e = Inr (Some res)"
  using assms
  by (auto simp: resolveSubscription_persist getAppAuthenticationToken_def getSubscriptionDetails_def post_resolve_def
      truthy_def split: sum.splits option.splits if_splits)

lemma activateSubscription_None: "activateSubscription e None tok w = (Inl TypeError, w)"
  by (simp add: activateSubscription_def)

lemma resolveSubscription_returns:
  assumes "resolveSubscription e token w = (Inr x, w')"
  obtains (no_token) auth where "authenticationResponse e = Inr auth" "\<not> truthy (access_token auth)"
      "x = None" "w' = record_event GetAppAuthenticationToken w"
  | (resolved) auth tok res s0 w3 where "authenticationResponse e = Inr auth" "access_token auth = Some tok"
      "tok \<noteq> []" "resolveResponse e = Inr (Some res)" "subscription res = Some s0"
      "activateSubscription e (Some s0) tok
         (record_event (PostResolve tok token) (record_event GetAppAuthenticationToken w))
       = (Inr (Some (s0\<lparr>saasSubscriptionStatus := Subscribed\<rparr>)), w3)"
      "resolve_persist e (s0\<lparr>saasSubscriptionStatus := Subscribed\<rparr>) w3 = (Inr x, w')"
      "x = Some (s0\<lparr>saasSubscriptionStatus := Subscribed\<rparr>)"
  using assms
proof (cases rule: resolveSubscription_not_fetched)
  case (no_token auth)
  with that(1) show ?thesis by blast
next
  case (fetched auth tok res)
  let ?w2 = "record_event (PostResolve tok token) (record_event GetAppAuthenticationToken w)"
  note eq = resolveSubscription_fetched[OF fetched, of token w]
  obtain s0 where s0: "subscription res = Some s0"
    using assms eq by (cases "subscription res") (auto simp: activateSubscription_None)
  obtain ra w3 where act: "activateSubscription e (Some s0) tok ?w2 = (ra, w3)"
    by (cases "activateSubscription e (Some s0) tok ?w2")
  from activateSubscription_result[OF act]
  have ra: "\<forall>y. ra = Inr y \<longrightarrow> y = Some (s0\<lparr>saasSubscriptionStatus := Subscribed\<rparr>)" by simp
  from assms eq s0 act ra have r: "ra = Inr (Some (s0\<lparr>saasSubscriptionStatus := Subscribed\<rparr>))"
    by (cases ra) auto
  with assms eq s0 act have p: "resolve_persist e (s0\<lparr>saasSubscriptionStatus := Subscribed\<rparr>) w3 = (Inr x, w')"
    by simp
  from resolve_persist_frame[OF p] have "x = Some (s0\<lparr>saasSubscriptionStatus := Subscribed\<rparr>)" by simp
  with that(2)[OF fetched s0 act[unfolded r] p] show ?thesis .
qed




text \<open>
  Claim C2. In a resolve run that fetched the subscription \<open>s\<close>, the activation endpoint
  is not called when \<open>s\<close> is already \<^verbatim>\<open>Subscribed\<close>, and is called exactly once otherwise,
  with the id of \<open>s\<close> and the payload \<^verbatim>\<open>{planId, quantity}\<close> of \<open>s\<close>. When
  \<^verbatim>\<open>activateSubscription\<close> succeeds the subscription in memory is \<open>s\<close> with status
  \<^verbatim>\<open>Subscribed\<close>, and that is what a successful run returns.
\<close>

theorem no_double_activation:
  assumes "authenticationResponse e = Inr auth" and "access_token auth = Some tok" and "tok \<noteq> []"
    and "resolveResponse e = Inr (Some res)" and "subscription res = Some s"
    and "resolveSubscription e token w = (r, w')"
  shows "filter isPostActivate (trace w') = filter isPostActivate (trace w) @
           (if saasSubscriptionStatus s = Subscribed then []
            else [PostActivate (sub_id s) tok \<lparr>act_planId = planId s, act_quantity = quantity s\<rparr>])
     \<and> (\<forall>w2 x w3. activateSubscription e (Some s) tok w2 = (Inr x, w3)
           \<longrightarrow> x = Some (s\<lparr>saasSubscriptionStatus := Subscribed\<rparr>))
     \<and> (\<forall>x. r = Inr x \<longrightarrow> x = Some (s\<lparr>saasSubscriptionStatus := Subscribed\<rparr>))"
proof -
  let ?w2 = "record_event (PostResolve tok token) (record_event GetAppAuthenticationToken w)"
  let ?acts = "if saasSubscriptionStatus s = Subscribed then []
            else [PostActivate (sub_id s) tok \<lparr>act_planId = planId s, act_quantity = quantity s\<rparr>]"
  let ?s = "s\<lparr>saasSubscriptionStatus := Subscribed\<rparr>"
  note eq = resolveSubscription_fetched[OF assms(1-4), of token w, unfolded assms(5)]
  obtain ra w3 where act: "activateSubscription e (Some s) tok ?w2 = (ra, w3)"
    by (cases "activateSubscription e (Some s) tok ?w2")
  from activateSubscription_result[OF act]
  have t3: "trace w3 = trace ?w2 @ ?acts" and ra: "\<forall>y. ra = Inr y \<longrightarrow> y = Some ?s"
    by simp_all
  have f3: "filter isPostActivate (trace w3) = filter isPostActivate (trace w) @ ?acts"
    unfolding t3 by (simp add: record_event_def)
  have always: "\<forall>w2 x w3. activateSubscription e (Some s) tok w2 = (Inr x, w3) \<longrightarrow> x = Some ?s"
    using activateSubscription_result by blast
  show ?thesis
  proof (cases ra)
    case (Inl err)
    with assms(6) eq act have "r = Inl err" "w' = w3" by simp_all
    with f3 always show ?thesis by simp
  next
    case (Inr y)
    with ra have y: "ra = Inr (Some ?s)" by simp
    with assms(6) eq act have p: "resolve_persist e ?s w3 = (r, w')" by simp
    from resolve_persist_frame[OF p] f3 always show ?thesis by simp
  qed
qed

theorem no_double_activation_witness:
  "(\<exists>r w'. resolveSubscription scenario_env ''tok-1'' scenario_world = (r, w')
      \<and> filter isPostActivate (trace w')
          = [PostActivate (Some ''sub-1'') ''app-token'' \<lparr>act_planId = ''p1'', act_quantity = 5\<rparr>])
   \<and> (\<exists>r w'. resolveSubscription
          (scenario_env\<lparr>resolveResponse := Inr (Some \<lparr>subscription = Some scenario_active\<rparr>)\<rparr>)
          ''tok-1'' scenario_world = (r, w')
      \<and> filter isPostActivate (trace w') = [])"
proof -
  let ?e = "scenario_env\<lparr>resolveResponse := Inr (Some \<lparr>subscription = Some scenario_active\<rparr>)\<rparr>"
  obtain r1 w1 where run1: "resolveSubscription scenario_env ''tok-1'' scenario_world = (r1, w1)"
    by (cases "resolveSubscription scenario_env ''tok-1'' scenario_world")
  obtain r2 w2 where run2: "resolveSubscription ?e ''tok-1'' scenario_world = (r2, w2)"
    by (cases "resolveSubscription ?e ''tok-1'' scenario_world")
  have a1: "authenticationResponse scenario_env = Inr \<lparr>access_token = Some ''app-token''\<rparr>"
    and f1: "resolveResponse scenario_env = Inr (Some \<lparr>subscription = Some scenario_subscription\<rparr>)"
    and a2: "authenticationResponse ?e = Inr \<lparr>access_token = Some ''app-token''\<rparr>"
    and f2: "resolveResponse ?e = Inr (Some \<lparr>subscription = Some scenario_active\<rparr>)"
    by (simp_all add: scenario_env_def)
  from no_double_activation[OF a1 _ _ f1 _ run1]
  have "filter isPostActivate (trace w1)
          = [PostActivate (Some ''sub-1'') ''app-token'' \<lparr>act_planId = ''p1'', act_quantity = 5\<rparr>]"
    by (simp add: scenario_defs)
  moreover from no_double_activation[OF a2 _ _ f2 _ run2]
  have "filter isPostActivate (trace w2) = []"
    by (simp add: scenario_defs)
  ultimately show ?thesis using run1 run2 by blast
qed

text \<open>
  Claim C6. A resolve run that returns the subscription \<open>s\<close> has made exactly one user
  upsert when \<^verbatim>\<open>purchaser.objectId\<close> equals \<^verbatim>\<open>beneficiary.objectId\<close>, with the filter
  \<^verbatim>\<open>{userId, tenantId, upn}\<close> of the purchaser, and exactly two otherwise, the first with the
  purchaser's filter and the second with the beneficiary's.
\<close>

theorem owner_upserts:
  assumes "resolveSubscription e token w = (Inr (Some s), w')"
  shows "filter isUserUpsert (trace w') = filter isUserUpsert (trace w) @
     (if objectId (purchaser s) = objectId (beneficiary s)
      then [UserFindOneAndUpdate
              (emptyUser\<lparr>userId := Some (objectId (purchaser s)),
                         user_tenantId := tenantId (purchaser s),
                         upn := Some (emailId (purchaser s))\<rparr>)
              (userData s (emptyUser\<lparr>userId := Some (objectId (purchaser s)),
                         user_tenantId := tenantId (purchaser s),
                         upn := Some (emailId (purchaser s))\<rparr>))]
      else [UserFindOneAndUpdate
              (emptyUser\<lparr>userId := Some (objectId (purchaser s)),
                         user_tenantId := tenantId (purchaser s),
                         upn := Some (emailId (purchaser s))\<rparr>)
              (userData s (emptyUser\<lparr>userId := Some (objectId (purchaser s)),
                         user_tenantId := tenantId (purchaser s),
                         upn := Some (emailId (purchaser s))\<rparr>)),
            UserFindOneAndUpdate
              (emptyUser\<lparr>userId := Some (objectId (beneficiary s)),
                         user_tenantId := tenantId (beneficiary s),
                         upn := Some (emailId (beneficiary s))\<rparr>)
              (userData s (emptyUser\<lparr>userId := Some (objectId (beneficiary s)),
                         user_tenantId := tenantId (beneficiary s),
                         upn := Some (emailId (beneficiary s))\<rparr>))])"
  using assms
proof (cases rule: resolveSubscription_returns)
  case (no_token auth)
  then show ?thesis by simp
next
  case (resolved auth tok res s0 w3)
  let ?w2 = "record_event (PostResolve tok token) (record_event GetAppAuthenticationToken w)"
  from resolved(8) have s: "s = s0\<lparr>saasSubscriptionStatus := Subscribed\<rparr>" by simp
  from activateSubscription_result[OF resolved(6)]
  have "trace w3 = trace ?w2 @
          (if saasSubscriptionStatus s0 = Subscribed then []
           else [PostActivate (sub_id s0) tok \<lparr>act_planId = planId s0, act_quantity = quantity s0\<rparr>])"
    by simp
  then have u3: "filter isUserUpsert (trace w3) = filter isUserUpsert (trace w)"
    by (simp add: record_event_def)
  from resolve_persist_frame[OF resolved(7)[folded s]] u3
  have "filter isUserUpsert (trace w') = filter isUserUpsert (trace w) @
            map (\<lambda>q. UserFindOneAndUpdate q (userData s q))
              (prepareFindOwnerQuery (objectId (purchaser s) = objectId (beneficiary s)) s)"
    by simp
  then show ?thesis
    by (simp add: prepareFindOwnerQuery_def emptyUser_def)
qed

lemma scenario_gift_resolves:
  "fst (resolveSubscription scenario_env_gift ''tok-1'' scenario_world)
     = Inr (Some (scenario_gift\<lparr>saasSubscriptionStatus := Subscribed\<rparr>))"
  by (simp add: scenario_defs scenario_gift_defs repository_defs service_defs)

lemma scenario_resolves:
  "fst (resolveSubscription scenario_env ''tok-1'' scenario_world) = Inr (Some scenario_active)"
  by (simp add: scenario_defs repository_defs service_defs)

theorem owner_upserts_witness:
  "(\<exists>w'. resolveSubscription scenario_env ''tok-1'' scenario_world = (Inr (Some scenario_active), w')
      \<and> map (\<lambda>ev. case ev of UserFindOneAndUpdate f p \<Rightarrow> (userId f, user_tenantId f) | _ \<Rightarrow> (None, None))
          (filter isUserUpsert (trace w')) = [(Some ''u1'', Some ''t1'')])
   \<and> (\<exists>w'. resolveSubscription scenario_env_gift ''tok-1'' scenario_world
             = (Inr (Some (scenario_gift\<lparr>saasSubscriptionStatus := Subscribed\<rparr>)), w')
      \<and> map (\<lambda>ev. case ev of UserFindOneAndUpdate f p \<Rightarrow> (userId f, user_tenantId f) | _ \<Rightarrow> (None, None))
          (filter isUserUpsert (trace w')) = [(Some ''u1'', Some ''t1''), (Some ''u2'', Some ''t1'')])"
proof -
  obtain w1 where run1: "resolveSubscription scenario_env ''tok-1'' scenario_world = (Inr (Some scenario_active), w1)"
    using scenario_resolves by (cases "resolveSubscription scenario_env ''tok-1'' scenario_world") auto
  obtain w2 where run2: "resolveSubscription scenario_env_gift ''tok-1'' scenario_world
             = (Inr (Some (scenario_gift\<lparr>saasSubscriptionStatus := Subscribed\<rparr>)), w2)"
    using scenario_gift_resolves by (cases "resolveSubscription scenario_env_gift ''tok-1'' scenario_world") auto
  have t0: "trace scenario_world = []" by (simp add: scenario_world_def)
  from owner_upserts[OF run1]
  have "map (\<lambda>ev. case ev of UserFindOneAndUpdate f p \<Rightarrow> (userId f, user_tenantId f) | _ \<Rightarrow> (None, None))
          (filter isUserUpsert (trace w1)) = [(Some ''u1'', Some ''t1'')]"
    by (simp add: t0 scenario_defs scenario_gift_defs emptyUser_def)
  moreover from owner_upserts[OF run2]
  have "map (\<lambda>ev. case ev of UserFindOneAndUpdate f p \<Rightarrow> (userId f, user_tenantId f) | _ \<Rightarrow> (None, None))
          (filter isUserUpsert (trace w2)) = [(Some ''u1'', Some ''t1''), (Some ''u2'', Some ''t1'')]"
    by (simp add: t0 scenario_defs scenario_gift_defs emptyUser_def)
  ultimately show ?thesis using run1 run2 by simp
qed

section \<open>Runs in which every collaborator answers\<close>

lemma userRepository_findOneAndUpdate_succeeds:
  assumes "\<forall>n. \<not> storeFails e n"
  shows "\<exists>x w'. userRepository_findOneAndUpdate e f p w = (Inr x, w')"
  using assms by (auto simp: userRepository_findOneAndUpdate_def split: prod.splits)

lemma findOwnerOrCreateUser_loop_succeeds:
  assumes "\<forall>n. \<not> storeFails e n"
  shows "\<exists>x w'. findOwnerOrCreateUser_loop e qs s owners w = (Inr x, w')"
proof (induction qs arbitrary: owners w)
  case Nil
  then show ?case by simp
next
  case (Cons q qs)
  from userRepository_findOneAndUpdate_succeeds[OF assms]
  obtain x w1 where "userRepository_findOneAndUpdate e q (userData s q) w = (Inr x, w1)" by blast
  with Cons.IH[of "owners @ [x]" w1] show ?case by simp
qed

lemma getOrganizationSubscription_found:
  assumes "getOrganizationSubscription (Some org) s = Inr (Some d)"
  shows "\<exists>subs. subscriptions org = Some subs"
  using assms by (auto simp: getOrganizationSubscription_def split: option.splits)

lemma getOrganizationSubscription_Some:
  "\<exists>x. getOrganizationSubscription (Some org) s = Inr x"
  by (auto simp: getOrganizationSubscription_def split: option.splits)

lemma organizationRepository_findOneAndUpdate_succeeds:
  assumes "\<forall>n. \<not> storeFails e n"
  shows "\<exists>x w'. organizationRepository_findOneAndUpdate e f p w = (Inr x, w')"
  using assms by (auto simp: organizationRepository_findOneAndUpdate_def split: prod.splits)

lemma resolve_persist_succeeds:
  assumes "\<forall>n. \<not> storeFails e n"
  shows "fst (resolve_persist e s w) = Inr (Some s)"
proof -
  from organizationRepository_findOneAndUpdate_succeeds[OF assms]
  obtain organization w4 where s4: "getOrCreateOrganization e s w = (Inr organization, w4)"
    unfolding getOrCreateOrganization_def by blast
  obtain db where db: "getOrganizationSubscription (Some organization) s = Inr db"
    using getOrganizationSubscription_Some by blast
  have "\<exists>organization'. (case db of
             None \<Rightarrow> Inr organization
           | Some d \<Rightarrow>
               (case subscriptions organization of
                  None \<Rightarrow> Inl TypeError
                | Some subs \<Rightarrow>
                    Inr (organization\<lparr>subscriptions := Some (filter (\<lambda>x. sub_id x \<noteq> sub_id d) subs)\<rparr>)))
          = Inr organization'"
    using getOrganizationSubscription_found[of organization s] db
    by (cases db) auto
  then obtain organization' where prep: "(case db of
             None \<Rightarrow> Inr organization
           | Some d \<Rightarrow>
               (case subscriptions organization of
                  None \<Rightarrow> Inl TypeError
                | Some subs \<Rightarrow>
                    Inr (organization\<lparr>subscriptions := Some (filter (\<lambda>x. sub_id x \<noteq> sub_id d) subs)\<rparr>)))
          = Inr organization'" ..
  from organizationRepository_findOneAndUpdate_succeeds[OF assms]
  obtain updated w5 where s5: "updateOrganizationSubscriptions e organization' s w4 = (Inr updated, w5)"
    unfolding updateOrganizationSubscriptions_def by blast
  from findOwnerOrCreateUser_loop_succeeds[OF assms]
  obtain found w6 where s6: "getOrCreateSubscriptionOwners e s w5 = (Inr found, w6)"
    unfolding getOrCreateSubscriptionOwners_def findOwnerOrCreateUser_def by blast
  show ?thesis
    unfolding resolve_persist_def by (simp add: s4 db prep s5 s6)
qed

lemma removeSubscription_first_call:
  "\<exists>evs. trace (snd (removeSubscription e s w))
     = trace w @ UserFind (emptyUser\<lparr>user_tenantId := tenantId (purchaser s), subscriptionId := sub_id s\<rparr>) # evs"
proof -
  let ?f = "emptyUser\<lparr>user_tenantId := tenantId (purchaser s), subscriptionId := sub_id s\<rparr>"
  obtain r w' where run: "removeSubscription e s w = (r, w')"
    by (cases "removeSubscription e s w")
  obtain r0 w0 where s0: "userRepository_find e ?f w = (r0, w0)"
    by (cases "userRepository_find e ?f w")
  from userRepository_find_frame[OF s0] have t0: "trace w0 = trace w @ [UserFind ?f]"
    by (simp add: record_event_def)
  have "\<exists>evs. trace w' = trace w0 @ evs"
  proof (cases r0)
    case (Inl err)
    with run s0 have "w' = w0"
      by (simp add: removeSubscription_def removeAllSubscriptionUsers_def)
    then show ?thesis by simp
  next
    case (Inr found)
    obtain r1 w1 where s1: "removeAllSubscriptionUsers_loop e found w0 = (r1, w1)"
      by (cases "removeAllSubscriptionUsers_loop e found w0")
    from removeAllSubscriptionUsers_loop_frame[OF s1] have a1: "appends isUserCall w0 w1" by simp
    show ?thesis
    proof (cases r1)
      case (Inl err)
      with run s0 Inr s1 have "w' = w1"
        by (simp add: removeSubscription_def removeAllSubscriptionUsers_def)
      with a1 show ?thesis by (auto simp: appends_iff)
    next
      case r1: (Inr u)
      with run s0 Inr s1 have "updateSubscriptionStatus e (tenantId (purchaser s)) s w1 = (r, w')"
        by (simp add: removeSubscription_def removeAllSubscriptionUsers_def)
      from updateSubscriptionStatus_frame[OF this] a1 show ?thesis
        by (auto simp: appends_iff)
    qed
  qed
  with t0 run show ?thesis by auto
qed

lemma resolveSubscription_succeeds:
  assumes a: "authenticationResponse e = Inr auth" "access_token auth = Some tok" "tok \<noteq> []"
      "resolveResponse e = Inr (Some res)" and s: "subscription res = Some s"
    and ok: "\<not> activationFails e" and st: "\<forall>n. \<not> storeFails e n"
  shows "fst (resolveSubscription e token w) = Inr (Some (s\<lparr>saasSubscriptionStatus := Subscribed\<rparr>))"
proof -
  let ?w2 = "record_event (PostResolve tok token) (record_event GetAppAuthenticationToken w)"
  let ?s = "s\<lparr>saasSubscriptionStatus := Subscribed\<rparr>"
  have "\<exists>w3. activateSubscription e (Some s) tok ?w2 = (Inr (Some ?s), w3)"
    by (simp add: activateSubscription_def callActivateSubscriptionApi_succeeds[OF ok])
  then obtain w3 where act: "activateSubscription e (Some s) tok ?w2 = (Inr (Some ?s), w3)" ..
  from resolveSubscription_fetched[OF a, of token w] s act
  have "resolveSubscription e token w = resolve_persist e ?s w3" by simp
  with resolve_persist_succeeds[OF st, of ?s w3] show ?thesis by simp
qed

section \<open>Upserts that change nothing\<close>

lemma upsert_index:
  assumes "upsert m upd cr ds = (k, ds')"
  shows "k < length ds'"
  using assms
  by (auto simp: upsert_def findFrom0_Some_iff split: option.splits)

lemma upsert_settled:
  assumes "settled m upd ds"
  shows "\<exists>i. upsert m upd cr ds = (i, ds)"
  using assms
  by (auto simp: settled_def upsert_def split: option.splits)

lemma settled_after_upsert:
  assumes keep: "\<And>i j d. m i d \<Longrightarrow> m j (upd d)" and cr: "\<And>j. m j cr"
    and idem: "\<And>d. upd (upd d) = upd d" and created: "upd cr = cr"
  shows "settled m upd (snd (upsert m upd cr ds))"
proof (cases "findFrom 0 m ds")
  case None
  then have no: "\<forall>j<length ds. \<not> m j (ds ! j)" by (simp add: findFrom0_None_iff)
  have "findFrom 0 m (ds @ [cr]) = Some (length ds)"
    unfolding findFrom0_Some_iff using no cr by (simp add: nth_append)
  with None created show ?thesis by (simp add: settled_def upsert_def)
next
  case (Some i)
  then have i: "i < length ds" "m i (ds ! i)" by (simp_all add: findFrom0_Some_iff)
  from findFrom_update_kept[OF Some keep[OF i(2)]]
  have "findFrom 0 m (ds[i := upd (ds ! i)]) = Some i" .
  with Some i(1) idem show ?thesis by (simp add: settled_def upsert_def)
qed

lemma settled_kept:
  assumes st: "settled m upd ds"
    and disj: "\<And>i j d. m' i d \<Longrightarrow> \<not> m j d"
    and disj_upd: "\<And>i j d. m' i d \<Longrightarrow> \<not> m j (upd' d)"
    and disj_cr: "\<And>j. \<not> m j cr'"
  shows "settled m upd (snd (upsert m' upd' cr' ds))"
proof -
  from st obtain i where f: "findFrom 0 m ds = Some i" and u: "upd (ds ! i) = ds ! i"
    by (auto simp: settled_def split: option.splits)
  from f have i: "i < length ds" "m i (ds ! i)" "\<forall>j<i. \<not> m j (ds ! j)"
    by (simp_all add: findFrom0_Some_iff)
  show ?thesis
  proof (cases "findFrom 0 m' ds")
    case None
    have "findFrom 0 m (ds @ [cr']) = Some i"
      unfolding findFrom0_Some_iff using i by (simp add: nth_append)
    with None u i(1) show ?thesis by (simp add: settled_def upsert_def nth_append)
  next
    case (Some j)
    then have j: "j < length ds" "m' j (ds ! j)" by (simp_all add: findFrom0_Some_iff)
    from disj[OF j(2)] i(2) have ji: "j \<noteq> i" by auto
    have "\<not> m l (ds[j := upd' (ds ! j)] ! l)" if "l < i" for l
      using that i(1,3) disj_upd[OF j(2)] by (cases "l = j") auto
    with i ji have "findFrom 0 m (ds[j := upd' (ds ! j)]) = Some i"
      unfolding findFrom0_Some_iff by simp
    with Some u ji show ?thesis by (simp add: settled_def upsert_def)
  qed
qed

lemma find_None_filter:
  "List.find P xs = None \<Longrightarrow> filter (\<lambda>x. \<not> P x) xs = xs"
  by (induction xs) (auto split: if_splits)

lemma persistedSubscriptions_again:
  "persistedSubscriptions s (Some (persistedSubscriptions s subs)) = persistedSubscriptions s subs"
  by (simp add: persistedSubscriptions_def)

lemma persistedSubscriptions_once:
  "filter (\<lambda>x. sub_id x = sub_id s) (persistedSubscriptions s subs) = [s]"
  by (simp add: persistedSubscriptions_def filter_empty_conv)

section \<open>The owners of a subscription\<close>

lemma owner_query_kept:
  assumes "q = emptyUser\<lparr>userId := Some uid, user_tenantId := t, upn := Some mail\<rparr>"
    and "user_matches q i d"
  shows "user_matches q j (user_patch (userData s q) d)"
  using assms
  by (auto simp: user_matches_def user_patch_def userData_def emptyUser_def field_matches_def
      patch_field_def split: option.splits)

lemma owner_query_created:
  assumes "q = emptyUser\<lparr>userId := Some uid, user_tenantId := t, upn := Some mail\<rparr>"
  shows "user_matches q j (user_patch (userData s q) (q\<lparr>user_id := None\<rparr>))"
  using assms
  by (auto simp: user_matches_def user_patch_def userData_def emptyUser_def field_matches_def
      patch_field_def split: option.splits)

lemma patch_field_again: "patch_field p (patch_field p v) = patch_field p v"
  by (cases p) (simp_all add: patch_field_def)

lemma user_patch_again: "user_patch p (user_patch p d) = user_patch p d"
  by (simp add: user_patch_def patch_field_again)

lemma owner_query_other:
  assumes "q = emptyUser\<lparr>userId := Some uid, user_tenantId := t, upn := Some mail\<rparr>"
    and "q' = emptyUser\<lparr>userId := Some uid', user_tenantId := t', upn := Some mail'\<rparr>"
    and "uid \<noteq> uid'"
  shows "user_matches q' i d \<Longrightarrow> \<not> user_matches q j d"
    and "\<not> user_matches q j (user_patch (userData s q') d)"
  using assms
  by (auto simp: user_matches_def user_patch_def userData_def emptyUser_def field_matches_def
      patch_field_def split: option.splits)

lemma upsertOwner_settles:
  assumes "q = emptyUser\<lparr>userId := Some uid, user_tenantId := t, upn := Some mail\<rparr>"
  shows "settled (user_matches q) (user_patch (userData s q)) (upsertOwner s q ds)"
  unfolding upsertOwner_def
  by (rule settled_after_upsert)
    (simp_all add: owner_query_kept[OF assms] owner_query_created[OF assms] user_patch_again)

lemma upsertOwner_keeps_settled:
  assumes q: "q = emptyUser\<lparr>userId := Some uid, user_tenantId := t, upn := Some mail\<rparr>"
    and q': "q' = emptyUser\<lparr>userId := Some uid', user_tenantId := t', upn := Some mail'\<rparr>"
    and ne: "uid \<noteq> uid'"
    and st: "settled (user_matches q) upd ds"
  shows "settled (user_matches q) upd (upsertOwner s q' ds)"
  unfolding upsertOwner_def
  by (rule settled_kept[OF st])
    (simp_all add: owner_query_other[OF q q' ne])

lemma upsertOwner_settled:
  assumes "settled (user_matches q) (user_patch (userData s q)) ds"
  shows "upsertOwner s q ds = ds"
  using upsert_settled[OF assms] unfolding upsertOwner_def by (metis snd_conv)

lemma fold_upsertOwner_settled:
  "list_all (\<lambda>q. settled (user_matches q) (user_patch (userData s q)) ds) qs
     \<Longrightarrow> fold (upsertOwner s) qs ds = ds"
  by (induction qs) (simp_all add: upsertOwner_settled)

lemma owners_settled:
  "list_all (\<lambda>q. settled (user_matches q) (user_patch (userData s q))
       (fold (upsertOwner s) (prepareFindOwnerQuery (objectId (purchaser s) = objectId (beneficiary s)) s) ds))
     (prepareFindOwnerQuery (objectId (purchaser s) = objectId (beneficiary s)) s)"
proof (cases "objectId (purchaser s) = objectId (beneficiary s)")
  case True
  let ?qp = "emptyUser\<lparr>userId := Some (objectId (purchaser s)), user_tenantId := tenantId (purchaser s),
      upn := Some (emailId (purchaser s))\<rparr>"
  have "settled (user_matches ?qp) (user_patch (userData s ?qp)) (upsertOwner s ?qp ds)"
    by (rule upsertOwner_settles) (rule refl)
  with True show ?thesis by (simp add: prepareFindOwnerQuery_def)
next
  case False
  let ?qp = "emptyUser\<lparr>userId := Some (objectId (purchaser s)), user_tenantId := tenantId (purchaser s),
      upn := Some (emailId (purchaser s))\<rparr>"
  let ?qb = "emptyUser\<lparr>userId := Some (objectId (beneficiary s)), user_tenantId := tenantId (beneficiary s),
      upn := Some (emailId (beneficiary s))\<rparr>"
  have same: "emptyUser\<lparr>user_tenantId := tenantId (beneficiary s), userId := Some (objectId (beneficiary s)),
      upn := Some (emailId (beneficiary s))\<rparr> = ?qb"
    by (simp add: emptyUser_def)
  have p1: "settled (user_matches ?qp) (user_patch (userData s ?qp)) (upsertOwner s ?qp ds)"
    by (rule upsertOwner_settles) (rule refl)
  have p2: "settled (user_matches ?qp) (user_patch (userData s ?qp)) (upsertOwner s ?qb (upsertOwner s ?qp ds))"
    by (rule upsertOwner_keeps_settled[OF refl refl False p1])
  have b2: "settled (user_matches ?qb) (user_patch (userData s ?qb)) (upsertOwner s ?qb (upsertOwner s ?qp ds))"
    by (rule upsertOwner_settles) (rule refl)
  from False p2 b2 show ?thesis by (simp add: prepareFindOwnerQuery_def same)
qed

lemma settled_owner_record:
  assumes "settled (user_matches q) (user_patch (userData s q)) ds"
    and "saasSubscriptionStatus s = Subscribed"
  shows "case findFrom 0 (user_matches q) ds of
           None \<Rightarrow> False
         | Some i \<Rightarrow> role (ds ! i) = Some Admin \<and> license (ds ! i) = Some (planId s)
                     \<and> field_matches (sub_id s) (subscriptionId (ds ! i))"
proof -
  from assms(1) obtain i where f: "findFrom 0 (user_matches q) ds = Some i"
    and u: "user_patch (userData s q) (ds ! i) = ds ! i"
    by (auto simp: settled_def split: option.splits)
  from u have "role (user_patch (userData s q) (ds ! i)) = role (ds ! i)"
    "license (user_patch (userData s q) (ds ! i)) = license (ds ! i)"
    "subscriptionId (user_patch (userData s q) (ds ! i)) = subscriptionId (ds ! i)"
    by simp_all
  with assms(2) have "role (ds ! i) = Some Admin" "license (ds ! i) = Some (planId s)"
    "field_matches (sub_id s) (subscriptionId (ds ! i))"
    by (auto simp: user_patch_def userData_def patch_field_def field_matches_def split: option.splits)
  with f show ?thesis by simp
qed

lemma findOwnerOrCreateUser_loop_users:
  "findOwnerOrCreateUser_loop e qs s owners w = (Inr x, w') \<Longrightarrow>
     users w' = fold (upsertOwner s) qs (users w)"
proof (induction qs arbitrary: owners w)
  case Nil
  then show ?case by simp
next
  case (Cons q qs)
  obtain r1 w1 where step: "userRepository_findOneAndUpdate e q (userData s q) w = (r1, w1)"
    by (cases "userRepository_findOneAndUpdate e q (userData s q) w")
  from Cons.prems step obtain owner where r1: "r1 = Inr owner"
    by (cases r1) auto
  from step r1 have u1: "users w1 = upsertOwner s q (users w)"
    by (auto simp: userRepository_findOneAndUpdate_def upsertOwner_def record_event_def
        split: if_splits prod.splits)
  from Cons.prems step r1 have "findOwnerOrCreateUser_loop e qs s (owners @ [owner]) w1 = (Inr x, w')"
    by simp
  from Cons.IH[OF this] u1 show ?case by simp
qed

section \<open>The organization of a subscription\<close>

lemma organization_patch_tenant:
  assumes "organization_matches (emptyOrganization\<lparr>org_tenantId := t\<rparr>) i d"
  shows "organization_patch (emptyOrganization\<lparr>org_tenantId := t\<rparr>) d = d"
  using assms
  by (cases d) (auto simp: organization_matches_def organization_patch_def emptyOrganization_def
      field_matches_def patch_field_def split: option.splits)

lemma organization_created_matches:
  "organization_matches (emptyOrganization\<lparr>org_tenantId := t\<rparr>) j
     (organization_patch (emptyOrganization\<lparr>org_tenantId := t\<rparr>)
        (emptyOrganization\<lparr>org_tenantId := t, org_id := None\<rparr>))"
  by (auto simp: organization_matches_def organization_patch_def emptyOrganization_def
      field_matches_def patch_field_def split: option.splits)

lemma upsert_finds:
  assumes keep: "\<And>i j d. m i d \<Longrightarrow> m j (upd d)" and cr: "\<And>j. m j cr"
    and up: "upsert m upd cr ds = (k, ds1)"
  shows "findFrom 0 m ds1 = Some k"
proof (cases "findFrom 0 m ds")
  case None
  then have no: "\<forall>j<length ds. \<not> m j (ds ! j)" by (simp add: findFrom0_None_iff)
  have "findFrom 0 m (ds @ [cr]) = Some (length ds)"
    unfolding findFrom0_Some_iff using no cr by (simp add: nth_append)
  with None up show ?thesis by (simp add: upsert_def)
next
  case (Some i)
  then have i: "m i (ds ! i)" by (simp add: findFrom0_Some_iff)
  from findFrom_update_kept[OF Some keep[OF i]] Some up show ?thesis
    by (auto simp: upsert_def)
qed

lemma persistOrganization_result:
  "\<exists>k subs. findFrom 0 (organization_matches (emptyOrganization\<lparr>org_tenantId := tenantId (purchaser s)\<rparr>))
        (persistOrganization s ds) = Some k
     \<and> subscriptions (persistOrganization s ds ! k) = Some (persistedSubscriptions s subs)
     \<and> organization_patch (emptyOrganization\<lparr>org_tenantId := tenantId (purchaser s)\<rparr>)
         (persistOrganization s ds ! k) = persistOrganization s ds ! k"
proof -
  let ?ft = "emptyOrganization\<lparr>org_tenantId := tenantId (purchaser s)\<rparr>"
  let ?m = "organization_matches ?ft"
  obtain k ds1 where up: "upsert ?m (organization_patch ?ft)
      (organization_patch ?ft (emptyOrganization\<lparr>org_tenantId := tenantId (purchaser s), org_id := None\<rparr>)) ds = (k, ds1)"
    by (cases "upsert ?m (organization_patch ?ft)
      (organization_patch ?ft (emptyOrganization\<lparr>org_tenantId := tenantId (purchaser s), org_id := None\<rparr>)) ds")
  have keep: "\<And>i j d. ?m i d \<Longrightarrow> ?m j (organization_patch ?ft d)"
    by (simp add: organization_patch_tenant) (simp add: organization_matches_tenant)
  from upsert_finds[of ?m, OF keep organization_created_matches up]
  have f1: "findFrom 0 ?m ds1 = Some k" .
  then have k: "k < length ds1" "?m k (ds1 ! k)" by (simp_all add: findFrom0_Some_iff)
  let ?d = "(ds1 ! k)\<lparr>subscriptions := Some (persistedSubscriptions s (subscriptions (ds1 ! k)))\<rparr>"
  have res: "persistOrganization s ds = ds1[k := ?d]"
    by (simp add: persistOrganization_def up)
  from k(2) have md: "?m k ?d" by (simp add: organization_matches_tenant)
  from findFrom_update_kept[OF f1 md] have "findFrom 0 ?m (persistOrganization s ds) = Some k"
    by (simp add: res)
  moreover from k(1) have "subscriptions (persistOrganization s ds ! k)
      = Some (persistedSubscriptions s (subscriptions (ds1 ! k)))"
    by (simp add: res)
  moreover from k(1) organization_patch_tenant[OF md]
  have "organization_patch ?ft (persistOrganization s ds ! k) = persistOrganization s ds ! k"
    by (simp add: res)
  ultimately show ?thesis by blast
qed

lemma persistOrganization_again:
  "persistOrganization s (persistOrganization s ds) = persistOrganization s ds"
proof -
  let ?ft = "emptyOrganization\<lparr>org_tenantId := tenantId (purchaser s)\<rparr>"
  let ?m = "organization_matches ?ft"
  let ?ds = "persistOrganization s ds"
  from persistOrganization_result[of s ds]
  obtain k subs where f: "findFrom 0 ?m ?ds = Some k"
    and sb: "subscriptions (?ds ! k) = Some (persistedSubscriptions s subs)"
    and pt: "organization_patch ?ft (?ds ! k) = ?ds ! k"
    by blast
  from f pt have "settled ?m (organization_patch ?ft) ?ds"
    by (simp add: settled_def)
  from upsert_settled[OF this] f
  have up: "upsert ?m (organization_patch ?ft)
      (organization_patch ?ft (emptyOrganization\<lparr>org_tenantId := tenantId (purchaser s), org_id := None\<rparr>)) ?ds = (k, ?ds)"
    by (auto simp: upsert_def)
  have "(?ds ! k)\<lparr>subscriptions := Some (persistedSubscriptions s (subscriptions (?ds ! k)))\<rparr> = ?ds ! k"
    by (simp add: sb persistedSubscriptions_again)
  then have "?ds[k := (?ds ! k)\<lparr>subscriptions := Some (persistedSubscriptions s (subscriptions (?ds ! k)))\<rparr>] = ?ds"
    by simp
  with up show ?thesis
    unfolding persistOrganization_def[of s ?ds] by simp
qed

lemma resolve_persist_stores:
  assumes "resolve_persist e s w = (Inr x, w')"
  shows "organizations w' = persistOrganization s (organizations w)
     \<and> users w' = fold (upsertOwner s)
         (prepareFindOwnerQuery (objectId (purchaser s) = objectId (beneficiary s)) s) (users w)"
proof -
  let ?ft = "emptyOrganization\<lparr>org_tenantId := tenantId (purchaser s)\<rparr>"
  let ?m = "organization_matches ?ft"
  let ?cr = "organization_patch ?ft (emptyOrganization\<lparr>org_tenantId := tenantId (purchaser s), org_id := None\<rparr>)"
  obtain r4 w4 where s4: "getOrCreateOrganization e s w = (r4, w4)"
    by (cases "getOrCreateOrganization e s w")
  from assms s4 obtain organization where r4: "r4 = Inr organization"
    by (cases r4) (auto simp: resolve_persist_def)
  obtain k ds1 where up: "upsert ?m (organization_patch ?ft) ?cr (organizations w) = (k, ds1)"
    by (cases "upsert ?m (organization_patch ?ft) ?cr (organizations w)")
  have cr_eq: "?ft\<lparr>org_id := None\<rparr> = emptyOrganization\<lparr>org_tenantId := tenantId (purchaser s), org_id := None\<rparr>"
    by simp
  from s4 r4 up have org: "organization = organization_entity ds1 k"
    and o4: "organizations w4 = ds1" and u4: "users w4 = users w"
    by (auto simp: getOrCreateOrganization_def organizationRepository_findOneAndUpdate_def
        record_event_def split: if_splits)
  from upsert_index[OF up] have k: "k < length ds1" .
  let ?prepared = "case getOrganizationSubscription (Some organization) s of
        Inl err \<Rightarrow> Inl err
      | Inr dbSubscription \<Rightarrow>
          (case dbSubscription of
             None \<Rightarrow> Inr organization
           | Some d \<Rightarrow>
               (case subscriptions organization of
                  None \<Rightarrow> Inl TypeError
                | Some subs \<Rightarrow>
                    Inr (organization\<lparr>subscriptions := Some (filter (\<lambda>x. sub_id x \<noteq> sub_id d) subs)\<rparr>)))"
  from assms s4 r4 obtain organization' where prep: "?prepared = Inr organization'"
    by (cases ?prepared) (auto simp: resolve_persist_def split: sum.splits option.splits)
  obtain r5 w5 where s5: "updateOrganizationSubscriptions e organization' s w4 = (r5, w5)"
    by (cases "updateOrganizationSubscriptions e organization' s w4")
  from assms s4 r4 prep s5 obtain updated where r5: "r5 = Inr updated"
    by (cases r5) (auto simp: resolve_persist_def split: sum.splits option.splits)
  obtain r6 w6 where s6: "getOrCreateSubscriptionOwners e s w5 = (r6, w6)"
    by (cases "getOrCreateSubscriptionOwners e s w5")
  from assms s4 r4 prep s5 r5 s6 obtain found where r6: "r6 = Inr found" and w6: "w' = w6"
    by (cases r6) (auto simp: resolve_persist_def split: sum.splits option.splits)
  have shape: "org_id organization' = Some k \<and> org_tenantId organization' = org_tenantId (ds1 ! k)
      \<and> (case subscriptions organization' of Some l \<Rightarrow> l @ [s] | None \<Rightarrow> [s])
          = persistedSubscriptions s (subscriptions (ds1 ! k))"
  proof (cases "subscriptions (ds1 ! k)")
    case None
    with prep org show ?thesis
      by (auto simp: getOrganizationSubscription_def organization_entity_def persistedSubscriptions_def)
  next
    case (Some l)
    show ?thesis
    proof (cases "List.find (\<lambda>x. sub_id x = sub_id s) l")
      case None
      from find_None_filter[OF None] have "filter (\<lambda>x. sub_id x \<noteq> sub_id s) l = l" .
      with prep org Some None show ?thesis
        by (auto simp: getOrganizationSubscription_def organization_entity_def persistedSubscriptions_def)
    next
      case found: (Some d)
      from find_filter_same[OF found] have "sub_id d = sub_id s" .
      with prep org Some found show ?thesis
        by (auto simp: getOrganizationSubscription_def organization_entity_def persistedSubscriptions_def)
    qed
  qed
  from updateOrganizationSubscriptions_writes[OF s5[unfolded r5], of k] shape k o4
  have o5: "organizations w5 = ds1[k := (ds1 ! k)\<lparr>subscriptions :=
      Some (persistedSubscriptions s (subscriptions (ds1 ! k)))\<rparr>]"
    by simp
  from updateOrganizationSubscriptions_frame[OF s5] u4 have u5: "users w5 = users w" by simp
  from getOrCreateSubscriptionOwners_frame[OF s6] have o6: "organizations w6 = organizations w5" by simp
  from findOwnerOrCreateUser_loop_users[OF s6[unfolded r6 getOrCreateSubscriptionOwners_def findOwnerOrCreateUser_def]]
  have u6: "users w6 = fold (upsertOwner s)
         (prepareFindOwnerQuery (objectId (purchaser s) = objectId (beneficiary s)) s) (users w5)" .
  from o5 o6 u5 u6 w6 up show ?thesis
    by (simp add: persistOrganization_def)
qed

section \<open>Resolving twice\<close>

lemma resolveSubscription_stores:
  assumes "resolveSubscription e token w = (Inr (Some s), w')"
  shows "saasSubscriptionStatus s = Subscribed
     \<and> (\<exists>res s0. resolveResponse e = Inr (Some res) \<and> subscription res = Some s0
           \<and> s = s0\<lparr>saasSubscriptionStatus := Subscribed\<rparr>)
     \<and> organizations w' = persistOrganization s (organizations w)
     \<and> users w' = fold (upsertOwner s)
         (prepareFindOwnerQuery (objectId (purchaser s) = objectId (beneficiary s)) s) (users w)"
  using assms
proof (cases rule: resolveSubscription_returns)
  case (no_token auth)
  then show ?thesis by simp
next
  case (resolved auth tok res s0 w3)
  from resolved(8) have s: "s = s0\<lparr>saasSubscriptionStatus := Subscribed\<rparr>" by simp
  from activateSubscription_result[OF resolved(6)]
  have w3: "organizations w3 = organizations w" "users w3 = users w"
    by (simp_all add: record_event_def)
  from resolve_persist_stores[OF resolved(7)[folded s]] w3 resolved(4,5) s
  show ?thesis by simp
qed

text \<open>
  Claim C1. Let a resolve run return \<open>s\<close>, and let a second run on the resulting state,
  with the same marketplace response, return \<open>s'\<close>. Then \<open>s'\<close> is \<open>s\<close> and the second
  run leaves the organizations and the users exactly as the first left them. After the
  first run (hence after either) the organization found for the purchaser's tenant has
  exactly one entry with the id of \<open>s\<close>, which is \<open>s\<close>, and for each owner query the
  user found is an \<^verbatim>\<open>Admin\<close> licensed with the plan of \<open>s\<close> and bound to its id.
\<close>

theorem resolve_idempotent:
  assumes "resolveSubscription e token w = (Inr (Some s), w1)"
    and "resolveSubscription e' token' w1 = (Inr (Some s'), w2)"
    and "resolveResponse e' = resolveResponse e"
  shows "s' = s
     \<and> organizations w2 = organizations w1 \<and> users w2 = users w1
     \<and> (\<exists>k subs.
           findFrom 0 (organization_matches (emptyOrganization\<lparr>org_tenantId := tenantId (purchaser s)\<rparr>))
             (organizations w1) = Some k
         \<and> subscriptions (organizations w1 ! k) = Some subs
         \<and> filter (\<lambda>x. sub_id x = sub_id s) subs = [s])
     \<and> list_all
         (\<lambda>q. case findFrom 0 (user_matches q) (users w1) of
                 None \<Rightarrow> False
               | Some i \<Rightarrow> role (users w1 ! i) = Some Admin \<and> license (users w1 ! i) = Some (planId s)
                           \<and> field_matches (sub_id s) (subscriptionId (users w1 ! i)))
         (prepareFindOwnerQuery (objectId (purchaser s) = objectId (beneficiary s)) s)"
proof -
  let ?qs = "prepareFindOwnerQuery (objectId (purchaser s) = objectId (beneficiary s)) s"
  from resolveSubscription_stores[OF assms(1)]
  obtain res s0 where st: "saasSubscriptionStatus s = Subscribed"
    and r1: "resolveResponse e = Inr (Some res)" "subscription res = Some s0"
      "s = s0\<lparr>saasSubscriptionStatus := Subscribed\<rparr>"
    and o1: "organizations w1 = persistOrganization s (organizations w)"
    and u1: "users w1 = fold (upsertOwner s) ?qs (users w)"
    by blast
  from resolveSubscription_stores[OF assms(2)]
  obtain res' s0' where r2: "resolveResponse e' = Inr (Some res')" "subscription res' = Some s0'"
      "s' = s0'\<lparr>saasSubscriptionStatus := Subscribed\<rparr>"
    and o2: "organizations w2 = persistOrganization s' (organizations w1)"
    and u2: "users w2 = fold (upsertOwner s')
         (prepareFindOwnerQuery (objectId (purchaser s') = objectId (beneficiary s')) s') (users w1)"
    by blast
  from r1 r2 assms(3) have same: "s' = s" by simp
  from o2 have o: "organizations w2 = organizations w1"
    unfolding same o1 by (simp add: persistOrganization_again)
  have settled: "list_all (\<lambda>q. settled (user_matches q) (user_patch (userData s q)) (users w1)) ?qs"
    unfolding u1 by (rule owners_settled)
  from u2 fold_upsertOwner_settled[OF settled] have u: "users w2 = users w1"
    unfolding same by simp
  from persistOrganization_result[of s "organizations w"]
  obtain k subs where "findFrom 0 (organization_matches (emptyOrganization\<lparr>org_tenantId := tenantId (purchaser s)\<rparr>))
        (organizations w1) = Some k"
    and "subscriptions (organizations w1 ! k) = Some (persistedSubscriptions s subs)"
    unfolding o1 by blast
  then have one: "\<exists>k subs.
           findFrom 0 (organization_matches (emptyOrganization\<lparr>org_tenantId := tenantId (purchaser s)\<rparr>))
             (organizations w1) = Some k
         \<and> subscriptions (organizations w1 ! k) = Some subs
         \<and> filter (\<lambda>x. sub_id x = sub_id s) subs = [s]"
    using persistedSubscriptions_once by blast
  have owners: "list_all
         (\<lambda>q. case findFrom 0 (user_matches q) (users w1) of
                 None \<Rightarrow> False
               | Some i \<Rightarrow> role (users w1 ! i) = Some Admin \<and> license (users w1 ! i) = Some (planId s)
                           \<and> field_matches (sub_id s) (subscriptionId (users w1 ! i))) ?qs"
    using settled settled_owner_record[OF _ st, of _ "users w1"]
    by (simp add: list_all_iff)
  from same o u one owners show ?thesis by blast
qed

theorem resolve_idempotent_witness:
  "\<exists>w1 w2.
       resolveSubscription scenario_env_gift ''tok-1'' scenario_world
         = (Inr (Some (scenario_gift\<lparr>saasSubscriptionStatus := Subscribed\<rparr>)), w1)
     \<and> resolveSubscription scenario_env_gift ''tok-1'' w1
         = (Inr (Some (scenario_gift\<lparr>saasSubscriptionStatus := Subscribed\<rparr>)), w2)
     \<and> organizations w2 = organizations w1 \<and> users w2 = users w1
     \<and> (\<exists>k subs.
           findFrom 0 (organization_matches (emptyOrganization\<lparr>org_tenantId := Some ''t1''\<rparr>))
             (organizations w1) = Some k
         \<and> subscriptions (organizations w1 ! k) = Some subs
         \<and> filter (\<lambda>x. sub_id x = Some ''sub-1'') subs = [scenario_gift\<lparr>saasSubscriptionStatus := Subscribed\<rparr>])"
proof -
  let ?s = "scenario_gift\<lparr>saasSubscriptionStatus := Subscribed\<rparr>"
  have a: "authenticationResponse scenario_env_gift = Inr \<lparr>access_token = Some ''app-token''\<rparr>"
    and r: "resolveResponse scenario_env_gift = Inr (Some \<lparr>subscription = Some scenario_gift\<rparr>)"
    and ok: "\<not> activationFails scenario_env_gift"
    and st: "\<forall>n. \<not> storeFails scenario_env_gift n"
    by (simp_all add: scenario_env_gift_def scenario_env_def activationFails_def)
  have ok': "fst (resolveSubscription scenario_env_gift ''tok-1'' w) = Inr (Some ?s)" for w
    by (rule resolveSubscription_succeeds[OF a _ _ r _ ok st, of "''app-token''"]) simp_all
  obtain w1 where run1: "resolveSubscription scenario_env_gift ''tok-1'' scenario_world = (Inr (Some ?s), w1)"
    using ok'[of scenario_world]
    by (cases "resolveSubscription scenario_env_gift ''tok-1'' scenario_world") auto
  obtain w2 where run2: "resolveSubscription scenario_env_gift ''tok-1'' w1 = (Inr (Some ?s), w2)"
    using ok'[of w1]
    by (cases "resolveSubscription scenario_env_gift ''tok-1'' w1") auto
  have t: "tenantId (purchaser ?s) = Some ''t1''" and i: "sub_id ?s = Some ''sub-1''"
    by (simp_all add: scenario_defs scenario_gift_defs)
  from resolve_idempotent[OF run1 run2 refl] run1 run2 show ?thesis
    unfolding t i by blast
qed

section \<open>What the operations do with an absent id or tenant\<close>

lemma resolveSubscription_activations:
  assumes "authenticationResponse e = Inr auth" and "access_token auth = Some tok" and "tok \<noteq> []"
    and "resolveResponse e = Inr (Some res)" and "subscription res = Some s"
    and "resolveSubscription e token w = (r, w')"
  shows "filter isPostActivate (trace w') = filter isPostActivate (trace w) @
           (if saasSubscriptionStatus s = Subscribed then []
            else [PostActivate (sub_id s) tok \<lparr>act_planId = planId s, act_quantity = quantity s\<rparr>])"
proof -
  let ?w2 = "record_event (PostResolve tok token) (record_event GetAppAuthenticationToken w)"
  let ?acts = "if saasSubscriptionStatus s = Subscribed then []
            else [PostActivate (sub_id s) tok \<lparr>act_planId = planId s, act_quantity = quantity s\<rparr>]"
  let ?s = "s\<lparr>saasSubscriptionStatus := Subscribed\<rparr>"
  note eq = resolveSubscription_fetched[OF assms(1-4), of token w, unfolded assms(5)]
  obtain ra w3 where act: "activateSubscription e (Some s) tok ?w2 = (ra, w3)"
    by (cases "activateSubscription e (Some s) tok ?w2")
  from activateSubscription_result[OF act]
  have t3: "trace w3 = trace ?w2 @ ?acts" and ra: "\<forall>y. ra = Inr y \<longrightarrow> y = Some ?s"
    by simp_all
  have f3: "filter isPostActivate (trace w3) = filter isPostActivate (trace w) @ ?acts"
    unfolding t3 by (simp add: record_event_def)
  show ?thesis
  proof (cases ra)
    case (Inl err)
    with assms(6) eq act have "w' = w3" by simp
    with f3 show ?thesis by simp
  next
    case (Inr y)
    with ra have "ra = Inr (Some ?s)" by simp
    with assms(6) eq act have "resolve_persist e ?s w3 = (r, w')" by simp
    from resolve_persist_frame[OF this] f3 show ?thesis by simp
  qed
qed

lemma resolveSubscription_persists:
  assumes a: "authenticationResponse e = Inr auth" "access_token auth = Some tok" "tok \<noteq> []"
      "resolveResponse e = Inr (Some res)" and s: "subscription res = Some s"
    and ok: "\<not> activationFails e" and st: "\<forall>n. \<not> storeFails e n"
  shows "\<exists>w'. resolveSubscription e token w = (Inr (Some (s\<lparr>saasSubscriptionStatus := Subscribed\<rparr>)), w')
     \<and> filter isPostActivate (trace w') = filter isPostActivate (trace w) @
           (if saasSubscriptionStatus s = Subscribed then []
            else [PostActivate (sub_id s) tok \<lparr>act_planId = planId s, act_quantity = quantity s\<rparr>])
     \<and> (\<exists>k subs.
           findFrom 0 (organization_matches (emptyOrganization\<lparr>org_tenantId := tenantId (purchaser s)\<rparr>))
             (organizations w') = Some k
         \<and> subscriptions (organizations w' ! k) = Some subs
         \<and> filter (\<lambda>x. sub_id x = sub_id s) subs = [s\<lparr>saasSubscriptionStatus := Subscribed\<rparr>])
     \<and> list_all
         (\<lambda>q. case findFrom 0 (user_matches q) (users w') of
                 None \<Rightarrow> False
               | Some i \<Rightarrow> role (users w' ! i) = Some Admin \<and> license (users w' ! i) = Some (planId s)
                           \<and> field_matches (sub_id s) (subscriptionId (users w' ! i)))
         (prepareFindOwnerQuery (objectId (purchaser s) = objectId (beneficiary s)) s)"
proof -
  let ?s = "s\<lparr>saasSubscriptionStatus := Subscribed\<rparr>"
  let ?qs = "prepareFindOwnerQuery (objectId (purchaser ?s) = objectId (beneficiary ?s)) ?s"
  from resolveSubscription_succeeds[OF a s ok st, of token w]
  obtain w' where run: "resolveSubscription e token w = (Inr (Some ?s), w')"
    by (cases "resolveSubscription e token w") auto
  from resolveSubscription_stores[OF run]
  have o: "organizations w' = persistOrganization ?s (organizations w)"
    and u: "users w' = fold (upsertOwner ?s) ?qs (users w)"
    by simp_all
  from persistOrganization_result[of ?s "organizations w"]
  obtain k subs where "findFrom 0 (organization_matches (emptyOrganization\<lparr>org_tenantId := tenantId (purchaser ?s)\<rparr>))
        (organizations w') = Some k"
    and "subscriptions (organizations w' ! k) = Some (persistedSubscriptions ?s subs)"
    unfolding o by blast
  then have one: "\<exists>k subs.
           findFrom 0 (organization_matches (emptyOrganization\<lparr>org_tenantId := tenantId (purchaser s)\<rparr>))
             (organizations w') = Some k
         \<and> subscriptions (organizations w' ! k) = Some subs
         \<and> filter (\<lambda>x. sub_id x = sub_id s) subs = [?s]"
    using persistedSubscriptions_once[of ?s] by auto
  have settled: "list_all (\<lambda>q. settled (user_matches q) (user_patch (userData ?s q)) (users w')) ?qs"
    unfolding u by (rule owners_settled)
  have st': "saasSubscriptionStatus ?s = Subscribed" by simp
  have record_of: "case findFrom 0 (user_matches q) (users w') of
                 None \<Rightarrow> False
               | Some i \<Rightarrow> role (users w' ! i) = Some Admin \<and> license (users w' ! i) = Some (planId s)
                           \<and> field_matches (sub_id s) (subscriptionId (users w' ! i))"
    if "settled (user_matches q) (user_patch (userData ?s q)) (users w')" for q
  proof -
    from settled_owner_record[OF that st'] show ?thesis
      by (cases "findFrom 0 (user_matches q) (users w')") simp_all
  qed
  have qs: "?qs = prepareFindOwnerQuery (objectId (purchaser s) = objectId (beneficiary s)) s"
    by (simp add: prepareFindOwnerQuery_def)
  from settled record_of have "list_all
         (\<lambda>q. case findFrom 0 (user_matches q) (users w') of
                 None \<Rightarrow> False
               | Some i \<Rightarrow> role (users w' ! i) = Some Admin \<and> license (users w' ! i) = Some (planId s)
                           \<and> field_matches (sub_id s) (subscriptionId (users w' ! i))) ?qs"
    unfolding list_all_iff by blast
  then have owners: "list_all
         (\<lambda>q. case findFrom 0 (user_matches q) (users w') of
                 None \<Rightarrow> False
               | Some i \<Rightarrow> role (users w' ! i) = Some Admin \<and> license (users w' ! i) = Some (planId s)
                           \<and> field_matches (sub_id s) (subscriptionId (users w' ! i)))
         (prepareFindOwnerQuery (objectId (purchaser s) = objectId (beneficiary s)) s)"
    unfolding qs .
  from resolveSubscription_activations[OF a s run] run one owners show ?thesis by blast
qed

text \<open>
  Claim C8, as amended. Neither operation checks that \<^verbatim>\<open>subscription.id\<close> or
  \<^verbatim>\<open>purchaser.tenantId\<close> is present; the subscription is one that has its purchaser and
  beneficiary objects, as \<^verbatim>\<open>ISubscription.ts\<close> declares, whatever these two fields are.
  \<^verbatim>\<open>removeSubscription\<close> starts by querying the user repository with the two fields as
  they are. \<^verbatim>\<open>resolveSubscription\<close>, when the token is usable, the marketplace sends the
  subscription, activation does not fail and no repository call is rejected, activates it
  if it is not \<^verbatim>\<open>Subscribed\<close>, leaves it with status \<^verbatim>\<open>Subscribed\<close> as the one entry of
  its id in the organization found for the purchaser's tenant, leaves each owner an
  \<^verbatim>\<open>Admin\<close> licensed with its plan, and returns it.
\<close>

theorem no_presence_validation:
  "(\<exists>evs. trace (snd (removeSubscription e s w))
       = trace w @ UserFind (emptyUser\<lparr>user_tenantId := tenantId (purchaser s), subscriptionId := sub_id s\<rparr>) # evs)
   \<and> (authenticationResponse e = Inr auth \<and> access_token auth = Some tok \<and> tok \<noteq> []
        \<and> resolveResponse e = Inr (Some res) \<and> subscription res = Some s
        \<and> \<not> activationFails e \<and> (\<forall>n. \<not> storeFails e n)
       \<longrightarrow> (\<exists>w'. resolveSubscription e token w = (Inr (Some (s\<lparr>saasSubscriptionStatus := Subscribed\<rparr>)), w')
             \<and> filter isPostActivate (trace w') = filter isPostActivate (trace w) @
                   (if saasSubscriptionStatus s = Subscribed then []
                    else [PostActivate (sub_id s) tok \<lparr>act_planId = planId s, act_quantity = quantity s\<rparr>])
             \<and> (\<exists>k subs.
                   findFrom 0 (organization_matches (emptyOrganization\<lparr>org_tenantId := tenantId (purchaser s)\<rparr>))
                     (organizations w') = Some k
                 \<and> subscriptions (organizations w' ! k) = Some subs
                 \<and> filter (\<lambda>x. sub_id x = sub_id s) subs = [s\<lparr>saasSubscriptionStatus := Subscribed\<rparr>])
             \<and> list_all
                 (\<lambda>q. case findFrom 0 (user_matches q) (users w') of
                         None \<Rightarrow> False
                       | Some i \<Rightarrow> role (users w' ! i) = Some Admin \<and> license (users w' ! i) = Some (planId s)
                                   \<and> field_matches (sub_id s) (subscriptionId (users w' ! i)))
                 (prepareFindOwnerQuery (objectId (purchaser s) = objectId (beneficiary s)) s)))"
  using removeSubscription_first_call[of e s w] resolveSubscription_persists[of e auth tok res s token w]
  by blast

theorem no_presence_validation_witness:
  "sub_id scenario_malformed = None \<and> tenantId (purchaser scenario_malformed) = None
   \<and> (\<exists>evs. trace (snd (removeSubscription scenario_env_malformed scenario_malformed scenario_world))
          = UserFind (emptyUser\<lparr>user_tenantId := None, subscriptionId := None\<rparr>) # evs)
   \<and> (\<exists>w'. resolveSubscription scenario_env_malformed ''tok-1'' scenario_world
             = (Inr (Some (scenario_malformed\<lparr>saasSubscriptionStatus := Subscribed\<rparr>)), w')
        \<and> filter isPostActivate (trace w')
             = [PostActivate None ''app-token'' \<lparr>act_planId = ''p1'', act_quantity = 5\<rparr>]
        \<and> (\<exists>k subs.
               findFrom 0 (organization_matches (emptyOrganization\<lparr>org_tenantId := None\<rparr>))
                 (organizations w') = Some k
             \<and> subscriptions (organizations w' ! k) = Some subs
             \<and> filter (\<lambda>x. sub_id x = None) subs = [scenario_malformed\<lparr>saasSubscriptionStatus := Subscribed\<rparr>])
        \<and> list_all
             (\<lambda>q. case findFrom 0 (user_matches q) (users w') of
                     None \<Rightarrow> False
                   | Some i \<Rightarrow> role (users w' ! i) = Some Admin \<and> license (users w' ! i) = Some ''p1'')
             [emptyUser\<lparr>userId := Some ''u1'', upn := Some ''u1@t1''\<rparr>])"
proof -
  have a: "authenticationResponse scenario_env_malformed = Inr \<lparr>access_token = Some ''app-token''\<rparr>"
    and r: "resolveResponse scenario_env_malformed = Inr (Some \<lparr>subscription = Some scenario_malformed\<rparr>)"
    and ok: "\<not> activationFails scenario_env_malformed"
    and st: "\<forall>n. \<not> storeFails scenario_env_malformed n"
    by (simp_all add: scenario_env_malformed_def scenario_env_def activationFails_def)
  have i: "sub_id scenario_malformed = None" and t: "tenantId (purchaser scenario_malformed) = None"
    and p: "planId scenario_malformed = ''p1''" and q: "quantity scenario_malformed = 5"
    and n: "saasSubscriptionStatus scenario_malformed \<noteq> Subscribed"
    and t0: "trace scenario_world = []"
    and qs: "prepareFindOwnerQuery (objectId (purchaser scenario_malformed) = objectId (beneficiary scenario_malformed))
        scenario_malformed = [emptyUser\<lparr>userId := Some ''u1'', upn := Some ''u1@t1''\<rparr>]"
    by (simp_all add: scenario_malformed_def scenario_defs prepareFindOwnerQuery_def emptyUser_def)
  note inst = no_presence_validation[of scenario_env_malformed scenario_malformed scenario_world
      "\<lparr>access_token = Some ''app-token''\<rparr>" "''app-token''" "\<lparr>subscription = Some scenario_malformed\<rparr>" "''tok-1''"]
  from inst have first: "\<exists>evs. trace (snd (removeSubscription scenario_env_malformed scenario_malformed scenario_world))
          = UserFind (emptyUser\<lparr>user_tenantId := None, subscriptionId := None\<rparr>) # evs"
    by (simp add: i t t0)
  from inst a r ok st
  obtain w' where run: "resolveSubscription scenario_env_malformed ''tok-1'' scenario_world
             = (Inr (Some (scenario_malformed\<lparr>saasSubscriptionStatus := Subscribed\<rparr>)), w')"
    and acts: "filter isPostActivate (trace w') = filter isPostActivate (trace scenario_world) @
                   (if saasSubscriptionStatus scenario_malformed = Subscribed then []
                    else [PostActivate (sub_id scenario_malformed) ''app-token''
                            \<lparr>act_planId = planId scenario_malformed, act_quantity = quantity scenario_malformed\<rparr>])"
    and org: "\<exists>k subs.
                   findFrom 0 (organization_matches (emptyOrganization\<lparr>org_tenantId := tenantId (purchaser scenario_malformed)\<rparr>))
                     (organizations w') = Some k
                 \<and> subscriptions (organizations w' ! k) = Some subs
                 \<and> filter (\<lambda>x. sub_id x = sub_id scenario_malformed) subs
                     = [scenario_malformed\<lparr>saasSubscriptionStatus := Subscribed\<rparr>]"
    and own: "list_all
                 (\<lambda>q. case findFrom 0 (user_matches q) (users w') of
                         None \<Rightarrow> False
                       | Some i \<Rightarrow> role (users w' ! i) = Some Admin
                                   \<and> license (users w' ! i) = Some (planId scenario_malformed)
                                   \<and> field_matches (sub_id scenario_malformed) (subscriptionId (users w' ! i)))
                 (prepareFindOwnerQuery (objectId (purchaser scenario_malformed) = objectId (beneficiary scenario_malformed))
                    scenario_malformed)"
    by auto
  from acts have acts': "filter isPostActivate (trace w')
             = [PostActivate None ''app-token'' \<lparr>act_planId = ''p1'', act_quantity = 5\<rparr>]"
    by (simp add: i p q n t0)
  from own have own': "list_all
             (\<lambda>q. case findFrom 0 (user_matches q) (users w') of
                     None \<Rightarrow> False
                   | Some i \<Rightarrow> role (users w' ! i) = Some Admin \<and> license (users w' ! i) = Some ''p1'')
             [emptyUser\<lparr>userId := Some ''u1'', upn := Some ''u1@t1''\<rparr>]"
    unfolding qs p by (auto split: option.splits)
  from org have org': "\<exists>k subs.
               findFrom 0 (organization_matches (emptyOrganization\<lparr>org_tenantId := None\<rparr>))
                 (organizations w') = Some k
             \<and> subscriptions (organizations w' ! k) = Some subs
             \<and> filter (\<lambda>x. sub_id x = None) subs = [scenario_malformed\<lparr>saasSubscriptionStatus := Subscribed\<rparr>]"
    unfolding i t .
  from i t first run acts' org' own' show ?thesis by auto
qed

text \<open>
  Claim C8 as first stated (both operations fail fast, before any call, when
  \<^verbatim>\<open>subscription.id\<close> or \<^verbatim>\<open>purchaser.tenantId\<close> is absent) fails for a subscription
  that lacks both: resolve succeeds with it, and \<^verbatim>\<open>removeSubscription\<close> queries both
  repositories before it throws a \<open>TypeError\<close>.
\<close>

theorem no_presence_validation_counterexample:
  "sub_id scenario_malformed = None \<and> tenantId (purchaser scenario_malformed) = None
   \<and> fst (resolveSubscription scenario_env_malformed ''tok-1'' scenario_world)
       = Inr (Some (scenario_malformed\<lparr>saasSubscriptionStatus := Subscribed\<rparr>))
   \<and> removeSubscription scenario_env scenario_malformed scenario_world
       = (Inl TypeError,
          \<lparr>organizations = [], users = [],
           trace = [UserFind (emptyUser\<lparr>user_tenantId := None, subscriptionId := None\<rparr>),
                    OrganizationFindOne (emptyOrganization\<lparr>org_tenantId := None\<rparr>)]\<rparr>)"
  by (simp add: scenario_defs scenario_malformed_def scenario_env_malformed_def repository_defs service_defs)

end
